theory Spec2Isabelle
  imports Main "HOL-Library.AList"
begin

section \<open>JavaScript values\<close>

text \<open>
  The scripts of the extension (\<^verbatim>\<open>content.js\<close>, \<^verbatim>\<open>background.js\<close>, \<^verbatim>\<open>popup.js\<close>) exchange
  plain JavaScript values with \<^verbatim>\<open>chrome.storage.local\<close> and with each other. A value is
  \<^verbatim>\<open>undefined\<close>, \<^verbatim>\<open>null\<close>, a boolean, a number (integers only: the code only tests
  numbers for truthiness), a string, an array, a plain object (its own enumerable
  properties in insertion order, keys distinct) or a function (opaque: only its name).
\<close>

datatype jsval =
    JUndefined
  | JNull
  | JBool bool
  | JNum int
  | JStr string
  | JArr "jsval list"
  | JObj "(string \<times> jsval) list"
  | JFun string

type_synonym js_object = "(string \<times> jsval) list"

datatype js_type = TUndefined | TObject | TBoolean | TNumber | TString | TFunction

text \<open>\<^verbatim>\<open>typeof v\<close>: \<^verbatim>\<open>null\<close> and arrays are objects.\<close>

fun typeof :: "jsval \<Rightarrow> js_type" where
  "typeof JUndefined = TUndefined"
| "typeof JNull = TObject"
| "typeof (JBool _) = TBoolean"
| "typeof (JNum _) = TNumber"
| "typeof (JStr _) = TString"
| "typeof (JArr _) = TObject"
| "typeof (JObj _) = TObject"
| "typeof (JFun _) = TFunction"

text \<open>Truthiness, as \<^verbatim>\<open>!v\<close>, \<^verbatim>\<open>v || d\<close> and \<^verbatim>\<open>if (v)\<close> read it.\<close>

fun truthy :: "jsval \<Rightarrow> bool" where
  "truthy JUndefined = False"
| "truthy JNull = False"
| "truthy (JBool b) = b"
| "truthy (JNum n) = (n \<noteq> 0)"
| "truthy (JStr s) = (s \<noteq> [])"
| "truthy (JArr _) = True"
| "truthy (JObj _) = True"
| "truthy (JFun _) = True"

text \<open>The decimal numeral of an array index, the key under which an array holds it.\<close>

function string_of_nat :: "nat \<Rightarrow> string" where
  "string_of_nat n =
     (if n < 10 then [''0123456789'' ! n]
      else string_of_nat (n div 10) @ [''0123456789'' ! (n mod 10)])"
  by pat_completeness auto
termination
  by (relation "measure id") auto

text \<open>
  Reading a property walks the prototype chain: a name that is not an own property of
  a plain object is looked up in \<^verbatim>\<open>Object.prototype\<close>, whose members are functions,
  but for the accessor \<^verbatim>\<open>__proto__\<close>, which yields \<^verbatim>\<open>Object.prototype\<close> itself (an
  object with no enumerable property of its own).
\<close>

definition Object_prototype_keys :: "string list" where
  "Object_prototype_keys =
     [''constructor'', ''__defineGetter__'', ''__defineSetter__'', ''hasOwnProperty'',
      ''__lookupGetter__'', ''__lookupSetter__'', ''isPrototypeOf'',
      ''propertyIsEnumerable'', ''toString'', ''valueOf'', ''__proto__'',
      ''toLocaleString'']"

definition Object_prototype_get :: "string \<Rightarrow> jsval" where
  "Object_prototype_get k =
     (if k = ''__proto__'' then JObj []
      else if k \<in> set Object_prototype_keys then JFun k
      else JUndefined)"

definition Array_prototype_keys :: "string list" where
  "Array_prototype_keys =
     [''at'', ''concat'', ''copyWithin'', ''entries'', ''every'', ''fill'', ''filter'',
      ''find'', ''findIndex'', ''findLast'', ''findLastIndex'', ''flat'', ''flatMap'',
      ''forEach'', ''includes'', ''indexOf'', ''join'', ''keys'', ''lastIndexOf'', ''map'',
      ''pop'', ''push'', ''reduce'', ''reduceRight'', ''reverse'', ''shift'', ''slice'',
      ''some'', ''sort'', ''splice'', ''toLocaleString'', ''toReversed'', ''toSorted'',
      ''toSpliced'', ''toString'', ''unshift'', ''values'', ''with'', ''constructor'']"

definition Array_prototype_get :: "string \<Rightarrow> jsval" where
  "Array_prototype_get k =
     (if k \<in> set Array_prototype_keys then JFun k else Object_prototype_get k)"

text \<open>
  \<^verbatim>\<open>o[k]\<close> for a plain object, and for an array (its length, its elements under their
  indices, then \<^verbatim>\<open>Array.prototype\<close>).
\<close>

definition obj_get :: "js_object \<Rightarrow> string \<Rightarrow> jsval" where
  "obj_get ps k = (case map_of ps k of Some v \<Rightarrow> v | None \<Rightarrow> Object_prototype_get k)"

definition arr_get :: "jsval list \<Rightarrow> string \<Rightarrow> jsval" where
  "arr_get xs k =
     (if k = ''length'' then JNum (int (length xs))
      else (case find (\<lambda>i. string_of_nat i = k) [0..<length xs] of
              Some i \<Rightarrow> xs ! i
            | None \<Rightarrow> Array_prototype_get k))"

text \<open>
  The own enumerable properties of a value, which the spread \<^verbatim>\<open>{ ...v }\<close> copies:
  those of an object, the elements of an array and the characters of a string under
  their indices, and none for any other value.
\<close>

fun own_enumerable :: "jsval \<Rightarrow> js_object" where
  "own_enumerable (JObj ps) = ps"
| "own_enumerable (JArr xs) = zip (map string_of_nat [0..<length xs]) xs"
| "own_enumerable (JStr s) = zip (map string_of_nat [0..<length s]) (map (\<lambda>ch. JStr [ch]) s)"
| "own_enumerable _ = []"

text \<open>\<^verbatim>\<open>{ ...target, ...source }\<close>: each property of the source is assigned in turn.\<close>

definition spread_into :: "js_object \<Rightarrow> js_object \<Rightarrow> js_object" where
  "spread_into source target = fold (\<lambda>(k, v). AList.update k v) source target"

section \<open>Configuration and settings validation\<close>

text \<open>\<^verbatim>\<open>CONFIG.VERSION\<close> of each script.\<close>

definition VERSION_content :: string where
  "VERSION_content = ''8.1.0''"

definition VERSION_background :: string where
  "VERSION_background = ''8.1.0''"

definition VERSION_popup :: string where
  "VERSION_popup = ''8.0.0''"

text \<open>\<^verbatim>\<open>DEFAULT_SETTINGS\<close>, for a script whose version constant is \<open>ver\<close>.\<close>

definition DEFAULT_SETTINGS :: "string \<Rightarrow> js_object" where
  "DEFAULT_SETTINGS ver =
     [(''mainEnabled'', JBool False),
      (''copyEnabled'', JBool True),
      (''pasteEnabled'', JBool True),
      (''inputEnabled'', JBool True),
      (''version'', JStr ver)]"

definition flag_keys :: "string list" where
  "flag_keys = [''mainEnabled'', ''copyEnabled'', ''pasteEnabled'', ''inputEnabled'']"

text \<open>\<^verbatim>\<open>settings[key]\<close>, reached only for a truthy value whose \<^verbatim>\<open>typeof\<close> is object.\<close>

fun member :: "jsval \<Rightarrow> string \<Rightarrow> jsval" where
  "member (JObj ps) k = obj_get ps k"
| "member (JArr xs) k = arr_get xs k"
| "member _ k = JUndefined"

text \<open>
  \<^verbatim>\<open>Utils.validateSettings\<close> of \<^verbatim>\<open>background.js\<close> and \<^verbatim>\<open>popup.js\<close>: a copy of the
  defaults, in which \<^verbatim>\<open>forEach\<close> over the four flag names overwrites a flag whenever
  the input's property of that name is a boolean.
\<close>

definition validateSettings :: "string \<Rightarrow> jsval \<Rightarrow> js_object" where
  "validateSettings ver settings =
     (if \<not> truthy settings \<or> typeof settings \<noteq> TObject then DEFAULT_SETTINGS ver
      else fold (\<lambda>key validated.
                   if typeof (member settings key) = TBoolean
                   then AList.update key (member settings key) validated
                   else validated)
             flag_keys (DEFAULT_SETTINGS ver))"

text \<open>\<^verbatim>\<open>Utils.validateSettings\<close> of \<^verbatim>\<open>content.js\<close>: the same, as four \<^verbatim>\<open>if\<close> statements.\<close>

definition validateSettings_content :: "jsval \<Rightarrow> js_object" where
  "validateSettings_content settings =
     (if \<not> truthy settings \<or> typeof settings \<noteq> TObject then DEFAULT_SETTINGS VERSION_content
      else
        let validated = DEFAULT_SETTINGS VERSION_content;
            validated = (if typeof (member settings ''mainEnabled'') = TBoolean
                         then AList.update ''mainEnabled'' (member settings ''mainEnabled'') validated
                         else validated);
            validated = (if typeof (member settings ''copyEnabled'') = TBoolean
                         then AList.update ''copyEnabled'' (member settings ''copyEnabled'') validated
                         else validated);
            validated = (if typeof (member settings ''pasteEnabled'') = TBoolean
                         then AList.update ''pasteEnabled'' (member settings ''pasteEnabled'') validated
                         else validated);
            validated = (if typeof (member settings ''inputEnabled'') = TBoolean
                         then AList.update ''inputEnabled'' (member settings ''inputEnabled'') validated
                         else validated)
        in validated)"

section \<open>The host: console, extension storage, badge\<close>

datatype js_exn = StorageError | ActionError | TypeError string | Thrown jsval

text \<open>
  \<^verbatim>\<open>Logger.error\<close> writes to the console; the console keeps the message and the error
  logged with it.
\<close>

record console =
  errors :: "(string \<times> js_exn) list"

definition Logger_error :: "string \<Rightarrow> js_exn \<Rightarrow> 'a console_scheme \<Rightarrow> 'a console_scheme" where
  "Logger_error msg e s = s\<lparr>errors := errors s @ [(msg, e)]\<rparr>"

text \<open>
  What the background and content scripts see of the browser: the three keys the
  extension keeps in \<^verbatim>\<open>chrome.storage.local\<close> (\<^verbatim>\<open>unlockSettings\<close>: any value,
  \<^verbatim>\<open>undefined\<close> when the key is absent; \<^verbatim>\<open>siteSettings\<close>: the plain object that
  \<^verbatim>\<open>saveSiteSettings\<close> writes, keyed by hostname; \<^verbatim>\<open>notifiedSites\<close>: the array that
  \<^verbatim>\<open>saveNotifiedSites\<close> writes), the badge of the toolbar icon and the delays of the
  pending \<^verbatim>\<open>setTimeout\<close> calls. A call of the storage API or of the badge API may be
  rejected by the browser: \<open>storage_faults\<close> and \<open>action_faults\<close> list the outcomes of
  the coming calls, in call order (\<open>True\<close>: the promise rejects; past the end of the
  list every call succeeds).
\<close>

record chrome = console +
  unlockSettings :: jsval
  siteSettings :: "js_object option"
  notifiedSites :: "jsval list option"
  storage_faults :: "bool list"
  badgeText :: string
  badgeColor :: string
  action_faults :: "bool list"
  timeouts :: "nat list"

definition storage_call :: "'a chrome_scheme \<Rightarrow> bool \<times> 'a chrome_scheme" where
  "storage_call c =
     (case storage_faults c of
        [] \<Rightarrow> (False, c)
      | f # fs \<Rightarrow> (f, c\<lparr>storage_faults := fs\<rparr>))"

definition action_call :: "'a chrome_scheme \<Rightarrow> bool \<times> 'a chrome_scheme" where
  "action_call c =
     (case action_faults c of
        [] \<Rightarrow> (False, c)
      | f # fs \<Rightarrow> (f, c\<lparr>action_faults := fs\<rparr>))"

text \<open>The first \<open>n\<close> storage calls to come all succeed.\<close>

definition storage_ok :: "nat \<Rightarrow> 'a chrome_scheme \<Rightarrow> bool" where
  "storage_ok n c = (True \<notin> set (take n (storage_faults c)))"

section \<open>Storage of the settings\<close>

text \<open>\<^verbatim>\<open>Storage.getSettings\<close> of \<^verbatim>\<open>content.js\<close>.\<close>

definition Storage_getSettings_content :: "'a chrome_scheme \<Rightarrow> js_object \<times> 'a chrome_scheme" where
  "Storage_getSettings_content c =
     (case storage_call c of
        (True, c') \<Rightarrow>
          (DEFAULT_SETTINGS VERSION_content,
           Logger_error ''Failed to get settings from storage:'' StorageError c')
      | (False, c') \<Rightarrow> (validateSettings_content (unlockSettings c'), c'))"

text \<open>\<^verbatim>\<open>Storage.getSettings\<close> of \<^verbatim>\<open>background.js\<close> and \<^verbatim>\<open>popup.js\<close>.\<close>

definition Storage_getSettings :: "string \<Rightarrow> 'a chrome_scheme \<Rightarrow> js_object \<times> 'a chrome_scheme" where
  "Storage_getSettings ver c =
     (case storage_call c of
        (True, c') \<Rightarrow> (DEFAULT_SETTINGS ver, Logger_error ''Failed to get settings:'' StorageError c')
      | (False, c') \<Rightarrow> (validateSettings ver (unlockSettings c'), c'))"

text \<open>
  \<^verbatim>\<open>IconManager.update\<close>: two badge calls inside one \<^verbatim>\<open>try\<close>; a rejected call is logged
  and skips what follows it.
\<close>

definition IconManager_update :: "jsval \<Rightarrow> 'a chrome_scheme \<Rightarrow> 'a chrome_scheme" where
  "IconManager_update enabled c =
     (let text = (if truthy enabled then ''ON'' else []);
          color = (if truthy enabled then ''#4ade80'' else ''#9ca3af'')
      in case action_call c of
           (True, c1) \<Rightarrow> Logger_error ''Failed to update icon badge:'' ActionError c1
         | (False, c1) \<Rightarrow>
             (case action_call (c1\<lparr>badgeText := text\<rparr>) of
                (True, c2) \<Rightarrow> Logger_error ''Failed to update icon badge:'' ActionError c2
              | (False, c2) \<Rightarrow> c2\<lparr>badgeColor := color\<rparr>))"

text \<open>
  \<^verbatim>\<open>Storage.saveSettings\<close> of \<^verbatim>\<open>background.js\<close>: validates, writes, updates the badge;
  \<^verbatim>\<open>false\<close> when the write is rejected.
\<close>

definition Storage_saveSettings :: "string \<Rightarrow> jsval \<Rightarrow> 'a chrome_scheme \<Rightarrow> bool \<times> 'a chrome_scheme" where
  "Storage_saveSettings ver settings c =
     (let validated = validateSettings ver settings
      in case storage_call c of
           (True, c1) \<Rightarrow> (False, Logger_error ''Failed to save settings:'' StorageError c1)
         | (False, c1) \<Rightarrow>
             (True, IconManager_update (obj_get validated ''mainEnabled'')
                      (c1\<lparr>unlockSettings := JObj validated\<rparr>)))"

text \<open>\<^verbatim>\<open>Storage.saveSettings\<close> of \<^verbatim>\<open>content.js\<close>: no badge update.\<close>

definition Storage_saveSettings_content :: "jsval \<Rightarrow> 'a chrome_scheme \<Rightarrow> bool \<times> 'a chrome_scheme" where
  "Storage_saveSettings_content settings c =
     (let validated = validateSettings_content settings
      in case storage_call c of
           (True, c1) \<Rightarrow> (False, Logger_error ''Failed to save settings:'' StorageError c1)
         | (False, c1) \<Rightarrow> (True, c1\<lparr>unlockSettings := JObj validated\<rparr>))"

text \<open>
  The property of a stored value that the validation reads for a flag: the own
  property of a plain object. Any other value has no property named like a flag.
\<close>

fun stored_field :: "jsval \<Rightarrow> string \<Rightarrow> jsval option" where
  "stored_field (JObj ps) k = map_of ps k"
| "stored_field _ k = None"

text \<open>The default of a flag, and the flag that a stored field yields.\<close>

definition default_flag :: "string \<Rightarrow> jsval" where
  "default_flag k = (if k = ''mainEnabled'' then JBool False else JBool True)"

definition flag_from :: "jsval option \<Rightarrow> string \<Rightarrow> jsval" where
  "flag_from field k = (case field of Some (JBool b) \<Rightarrow> JBool b | _ \<Rightarrow> default_flag k)"

text \<open>An object with exactly the five settings fields.\<close>

definition settings_object :: "jsval \<Rightarrow> jsval \<Rightarrow> jsval \<Rightarrow> jsval \<Rightarrow> string \<Rightarrow> js_object" where
  "settings_object m c p i ver =
     [(''mainEnabled'', m), (''copyEnabled'', c), (''pasteEnabled'', p),
      (''inputEnabled'', i), (''version'', JStr ver)]"

text \<open>
  The settings that the specification assigns to a stored value: each flag from the
  stored field of its name, with the version of the script.
\<close>

definition settings_of_stored :: "string \<Rightarrow> jsval \<Rightarrow> js_object" where
  "settings_of_stored ver v =
     settings_object
       (flag_from (stored_field v ''mainEnabled'') ''mainEnabled'')
       (flag_from (stored_field v ''copyEnabled'') ''copyEnabled'')
       (flag_from (stored_field v ''pasteEnabled'') ''pasteEnabled'')
       (flag_from (stored_field v ''inputEnabled'') ''inputEnabled'')
       ver"

text \<open>A settings record: exactly the four flags, all booleans, and the version.\<close>

definition is_settings_record :: "string \<Rightarrow> js_object \<Rightarrow> bool" where
  "is_settings_record ver r =
     (\<exists>m c p i. r = settings_object (JBool m) (JBool c) (JBool p) (JBool i) ver)"

text \<open>
  A browser in which every call succeeds and the stored settings have a flag switched
  on, a flag switched off, a flag of the wrong type, a flag missing and a field more.
\<close>

definition example_store :: chrome where
  "example_store =
     \<lparr>errors = [],
      unlockSettings = JObj [(''mainEnabled'', JBool True), (''copyEnabled'', JBool False),
                             (''pasteEnabled'', JStr ''no''), (''theme'', JNum 3)],
      siteSettings = None, notifiedSites = None, storage_faults = [],
      badgeText = [], badgeColor = [], action_faults = [], timeouts = []\<rparr>"

section \<open>Error handling\<close>

text \<open>
  A JavaScript function, as the wrapper sees it: called with \<^verbatim>\<open>this\<close> and its arguments
  in a state, it returns a value or throws, and leaves a state behind in both cases.
\<close>

type_synonym 's js_function = "jsval \<Rightarrow> jsval list \<Rightarrow> 's \<Rightarrow> (js_exn + jsval) \<times> 's"

text \<open>
  \<^verbatim>\<open>ErrorHandler.wrap(fn, context = '')\<close>, the same in the three scripts: the function it
  returns applies \<^verbatim>\<open>fn\<close> to its own \<^verbatim>\<open>this\<close> and arguments inside \<^verbatim>\<open>try\<close>; the
  \<^verbatim>\<open>catch\<close> logs the error under the context and returns \<^verbatim>\<open>undefined\<close>.
\<close>

definition ErrorHandler_wrap ::
  "'a console_scheme js_function \<Rightarrow> string option \<Rightarrow> 'a console_scheme js_function" where
  "ErrorHandler_wrap fn context this args s =
     (let ctx = (case context of None \<Rightarrow> [] | Some c \<Rightarrow> c)
      in case fn this args s of
           (Inr result, s') \<Rightarrow> (Inr result, s')
         | (Inl error, s') \<Rightarrow>
             (Inr JUndefined, Logger_error (''Error in '' @ ctx @ '':'') error s'))"

text \<open>
  A function that changes the badge and then throws, and one that returns its first
  argument.
\<close>

definition failing_function :: "chrome js_function" where
  "failing_function this args s = (Inl (TypeError ''x is not a function''), s\<lparr>badgeText := ''!''\<rparr>)"

definition returning_function :: "chrome js_function" where
  "returning_function this args s = (Inr (case args of [] \<Rightarrow> JUndefined | a # _ \<Rightarrow> a), s)"

section \<open>Page type detection and site dispatch\<close>

text \<open>
  The patterns of \<^verbatim>\<open>PageDetector.types\<close> are alternatives of literal strings with
  the flag \<^verbatim>\<open>i\<close>: \<^verbatim>\<open>pattern.test(hostname)\<close> holds when one alternative occurs somewhere
  in the hostname, letters compared without case.
\<close>

definition ascii_lower :: "char \<Rightarrow> char" where
  "ascii_lower ch =
     (case map_of (zip ''ABCDEFGHIJKLMNOPQRSTUVWXYZ'' ''abcdefghijklmnopqrstuvwxyz'') ch of
        Some l \<Rightarrow> l
      | None \<Rightarrow> ch)"

definition toLowerCase :: "string \<Rightarrow> string" where
  "toLowerCase s = map ascii_lower s"

fun starts_with :: "string \<Rightarrow> string \<Rightarrow> bool" where
  "starts_with [] s = True"
| "starts_with (p # ps) [] = False"
| "starts_with (p # ps) (ch # s) = (p = ch \<and> starts_with ps s)"

fun occurs_in :: "string \<Rightarrow> string \<Rightarrow> bool" where
  "occurs_in p [] = (p = [])"
| "occurs_in p (ch # s) = (starts_with p (ch # s) \<or> occurs_in p s)"

type_synonym regex = "string list"

definition regex_test :: "regex \<Rightarrow> string \<Rightarrow> bool" where
  "regex_test alternatives hostname =
     list_ex (\<lambda>a. occurs_in (toLowerCase a) (toLowerCase hostname)) alternatives"

text \<open>\<^verbatim>\<open>PageDetector.types\<close>, in source order.\<close>

definition PageDetector_types :: "(string \<times> regex) list" where
  "PageDetector_types =
     [(''feishu'', [''feishu.cn'', ''larkoffice.com'']),
      (''chaoxing'', [''chaoxing.com'']),
      (''pintia'', [''pintia.cn'']),
      (''csdn'', [''csdn.net'']),
      (''juejin'', [''juejin.cn'']),
      (''zhihu'', [''zhihu.com'']),
      (''baidu'', [''baidu.com'']),
      (''baiduwenku'', [''wenku.baidu.com'']),
      (''docin'', [''docin.com'', ''doc88.com'']),
      (''educoder'', [''educoder.net'']),
      (''weixin'', [''mp.weixin.qq.com'']),
      (''cnki'', [''cnki.net'', ''cnki.com.cn'', ''kns.cnki.net''])]"

text \<open>
  \<^verbatim>\<open>PageDetector.is(type)\<close>, that is \<^verbatim>\<open>this.types[type]?.test(hostname) ?? false\<close>:
  a name that \<^verbatim>\<open>types\<close> lacks gives \<^verbatim>\<open>false\<close>, but a name inherited from
  \<^verbatim>\<open>Object.prototype\<close> gives a value that has no \<^verbatim>\<open>test\<close> method, and the call throws.
\<close>

definition PageDetector_is :: "string \<Rightarrow> string \<Rightarrow> js_exn + bool" where
  "PageDetector_is type hostname =
     (case map_of PageDetector_types type of
        Some pattern \<Rightarrow> Inr (regex_test pattern hostname)
      | None \<Rightarrow>
          if type \<in> set Object_prototype_keys
          then Inl (TypeError ''this.types[type]?.test is not a function'')
          else Inr False)"

text \<open>
  What \<^verbatim>\<open>App.enableFeatures\<close> calls, in call order. The site handlers and the three
  functions of the generic path are all built by \<^verbatim>\<open>ErrorHandler.wrap\<close> and so return;
  the calls after the dispatch are listed as the function makes them when each returns.
\<close>

datatype action =
    SiteHandler string
  | RemoveSpecificEventListeners
  | InterceptXHR
  | InterceptFetch
  | SmartDOMObserver_init
  | ShadowDOMHandler_init
  | IframeHandler_init
  | SetupKeyboardShortcuts
  | SetupDoubleClick
  | SetupUniversalHandlers
  | RemoveVipMask
  | UnlockCssRestrictions

text \<open>An \<^verbatim>\<open>if\<close> whose condition may throw.\<close>

definition if_is :: "js_exn + bool \<Rightarrow> js_exn + 'a \<Rightarrow> js_exn + 'a \<Rightarrow> js_exn + 'a" where
  "if_is cond yes no = (case cond of Inl e \<Rightarrow> Inl e | Inr b \<Rightarrow> if b then yes else no)"

definition enableFeatures :: "string \<Rightarrow> js_exn + action list" where
  "enableFeatures hostname =
     (case
        if_is (PageDetector_is ''feishu'' hostname) (Inr [SiteHandler ''feishu''])
       (if_is (PageDetector_is ''pintia'' hostname) (Inr [SiteHandler ''pintia''])
       (if_is (PageDetector_is ''chaoxing'' hostname) (Inr [SiteHandler ''chaoxing''])
       (if_is (PageDetector_is ''csdn'' hostname) (Inr [SiteHandler ''csdn''])
       (if_is (PageDetector_is ''docin'' hostname) (Inr [SiteHandler ''docin''])
       (if_is (PageDetector_is ''educoder'' hostname) (Inr [SiteHandler ''educoder''])
       (if_is (PageDetector_is ''baiduwenku'' hostname) (Inr [SiteHandler ''baiduwenku''])
       (if_is (PageDetector_is ''weixin'' hostname) (Inr [SiteHandler ''weixin''])
       (if_is (PageDetector_is ''cnki'' hostname) (Inr [SiteHandler ''cnki''])
       (if_is (PageDetector_is ''zhihu'' hostname) (Inr [SiteHandler ''zhihu''])
          (Inr [RemoveSpecificEventListeners, InterceptXHR, InterceptFetch]))))))))))
      of Inl e \<Rightarrow> Inl e
       | Inr branch \<Rightarrow>
           Inr (branch @
                [SmartDOMObserver_init, ShadowDOMHandler_init, IframeHandler_init,
                 SetupKeyboardShortcuts, SetupDoubleClick, SetupUniversalHandlers,
                 RemoveVipMask, UnlockCssRestrictions]))"

text \<open>
  The dispatch in the words of the specification: the fixed order of the ten types
  that have a handler, the first of them whose pattern in the table matches the
  hostname, and the actions that follow the dispatch in every case.
\<close>

definition handler_order :: "string list" where
  "handler_order =
     [''feishu'', ''pintia'', ''chaoxing'', ''csdn'', ''docin'', ''educoder'',
      ''baiduwenku'', ''weixin'', ''cnki'', ''zhihu'']"

definition pattern_matches :: "string \<Rightarrow> string \<Rightarrow> bool" where
  "pattern_matches hostname type =
     (case map_of PageDetector_types type of
        Some pattern \<Rightarrow> regex_test pattern hostname
      | None \<Rightarrow> False)"

definition first_matching_type :: "string \<Rightarrow> string option" where
  "first_matching_type hostname = find (pattern_matches hostname) handler_order"

definition generic_unlock :: "action list" where
  "generic_unlock = [RemoveSpecificEventListeners, InterceptXHR, InterceptFetch]"

definition common_setup :: "action list" where
  "common_setup =
     [SmartDOMObserver_init, ShadowDOMHandler_init, IframeHandler_init,
      SetupKeyboardShortcuts, SetupDoubleClick, SetupUniversalHandlers,
      RemoveVipMask, UnlockCssRestrictions]"

fun is_site_handler :: "action \<Rightarrow> bool" where
  "is_site_handler (SiteHandler _) = True"
| "is_site_handler _ = False"

section \<open>Restriction notices of the background script\<close>

text \<open>
  \<^verbatim>\<open>MessageHandler.getNotifiedSites\<close>: the stored array, or the empty array when the
  key is absent or the read is rejected (nothing is logged).
\<close>

definition getNotifiedSites :: "'a chrome_scheme \<Rightarrow> jsval list \<times> 'a chrome_scheme" where
  "getNotifiedSites c =
     (case storage_call c of
        (True, c') \<Rightarrow> ([], c')
      | (False, c') \<Rightarrow> ((case notifiedSites c' of None \<Rightarrow> [] | Some stored \<Rightarrow> stored), c'))"

text \<open>
  \<^verbatim>\<open>sites.slice(-20)\<close>: from index \<^verbatim>\<open>max(length - 20, 0)\<close> to the end (the subtraction
  on \<open>nat\<close> stops at 0, as the clamp does).
\<close>

definition slice_last :: "nat \<Rightarrow> 'a list \<Rightarrow> 'a list" where
  "slice_last n xs = drop (length xs - n) xs"

text \<open>\<^verbatim>\<open>MessageHandler.saveNotifiedSites\<close>.\<close>

definition saveNotifiedSites :: "jsval list \<Rightarrow> 'a chrome_scheme \<Rightarrow> 'a chrome_scheme" where
  "saveNotifiedSites sites c =
     (let limited = slice_last 20 sites
      in case storage_call c of
           (True, c') \<Rightarrow> Logger_error ''Failed to save notified sites:'' StorageError c'
         | (False, c') \<Rightarrow> c'\<lparr>notifiedSites := Some limited\<rparr>)"

text \<open>
  \<^verbatim>\<open>MessageHandler.showRestrictionNotification\<close>: the badge shows \<^verbatim>\<open>!\<close> and a timer
  of 3000 ms is set to restore it; a rejected badge call is logged and skips the rest.
\<close>

definition showRestrictionNotification :: "'a chrome_scheme \<Rightarrow> 'a chrome_scheme" where
  "showRestrictionNotification c =
     (case action_call c of
        (True, c1) \<Rightarrow> Logger_error ''Failed to show notification:'' ActionError c1
      | (False, c1) \<Rightarrow>
          (case action_call (c1\<lparr>badgeText := ''!''\<rparr>) of
             (True, c2) \<Rightarrow> Logger_error ''Failed to show notification:'' ActionError c2
           | (False, c2) \<Rightarrow> c2\<lparr>badgeColor := ''#f59e0b'', timeouts := timeouts c2 @ [3000]\<rparr>))"

text \<open>
  \<^verbatim>\<open>MessageHandler.handleRestrictionDetected(data, sendResponse)\<close> for a message whose
  \<^verbatim>\<open>hostname\<close> is the string \<open>hostname\<close>: the response sent and the state left. Every
  function it awaits catches its own errors, so its own \<^verbatim>\<open>catch\<close> is not reached.
  \<^verbatim>\<open>includes\<close> compares the hostname with the elements by value.
\<close>

definition handleRestrictionDetected ::
  "string \<Rightarrow> string \<Rightarrow> 'a chrome_scheme \<Rightarrow> js_object \<times> 'a chrome_scheme" where
  "handleRestrictionDetected ver hostname c =
     (case Storage_getSettings ver c of (current, c1) \<Rightarrow>
        if truthy (obj_get current ''mainEnabled'')
        then ([(''success'', JBool True), (''notified'', JBool False)], c1)
        else (case getNotifiedSites c1 of (sites, c2) \<Rightarrow>
          if JStr hostname \<in> set sites
          then ([(''success'', JBool True), (''notified'', JBool False)], c2)
          else
            let c3 = saveNotifiedSites (sites @ [JStr hostname]) c2;
                c4 = showRestrictionNotification c3
            in ([(''success'', JBool True), (''notified'', JBool True)], c4)))"

text \<open>The stored list has at most 20 entries.\<close>

definition sites_bounded :: "'a chrome_scheme \<Rightarrow> bool" where
  "sites_bounded c = (case notifiedSites c of None \<Rightarrow> True | Some stored \<Rightarrow> length stored \<le> 20)"

text \<open>
  A store in which the extension is switched off and twenty sites have been notified,
  and one in which it is switched on.
\<close>

definition twenty_sites :: "jsval list" where
  "twenty_sites = map (\<lambda>n. JStr (''site'' @ string_of_nat n @ ''.example'')) [0..<20]"

definition store_off :: chrome where
  "store_off =
     \<lparr>errors = [], unlockSettings = JUndefined, siteSettings = None,
      notifiedSites = Some twenty_sites, storage_faults = [],
      badgeText = [], badgeColor = [], action_faults = [], timeouts = []\<rparr>"

section \<open>Per-site settings\<close>

text \<open>
  \<^verbatim>\<open>SiteSettingsManager.getSiteSettings(hostname)\<close>:
  \<^verbatim>\<open>allSiteSettings[hostname] || null\<close>, where \<^verbatim>\<open>allSiteSettings\<close> is the stored object
  or \<^verbatim>\<open>{}\<close>; \<^verbatim>\<open>null\<close> when the read is rejected.
\<close>

definition getSiteSettings :: "string \<Rightarrow> 'a chrome_scheme \<Rightarrow> jsval \<times> 'a chrome_scheme" where
  "getSiteSettings hostname c =
     (case storage_call c of
        (True, c') \<Rightarrow> (JNull, Logger_error ''Failed to get site settings:'' StorageError c')
      | (False, c') \<Rightarrow>
          (let allSiteSettings = (case siteSettings c' of None \<Rightarrow> [] | Some stored \<Rightarrow> stored);
               found = obj_get allSiteSettings hostname
           in (if truthy found then found else JNull, c')))"

text \<open>
  \<^verbatim>\<open>SiteSettingsManager.getEffectiveSettings(hostname)\<close>: the object literal spreads the
  global settings, then the site's, then sets \<^verbatim>\<open>hasSiteSpecificSettings\<close>.
\<close>

definition getEffectiveSettings :: "string \<Rightarrow> 'a chrome_scheme \<Rightarrow> js_object \<times> 'a chrome_scheme" where
  "getEffectiveSettings hostname c =
     (case Storage_getSettings VERSION_popup c of (globalSettings, c1) \<Rightarrow>
        (case getSiteSettings hostname c1 of (site, c2) \<Rightarrow>
           if truthy site
           then (AList.update ''hasSiteSpecificSettings'' (JBool True)
                   (spread_into (own_enumerable site) (spread_into globalSettings [])), c2)
           else (AList.update ''hasSiteSpecificSettings'' (JBool False)
                   (spread_into globalSettings []), c2)))"

text \<open>A store with no per-site settings at all.\<close>

definition store_without_site_settings :: chrome where
  "store_without_site_settings =
     \<lparr>errors = [], unlockSettings = JUndefined, siteSettings = None,
      notifiedSites = None, storage_faults = [],
      badgeText = [], badgeColor = [], action_faults = [], timeouts = []\<rparr>"

section \<open>The state of the popup\<close>

text \<open>\<^verbatim>\<open>!v\<close>.\<close>

definition js_not :: "jsval \<Rightarrow> jsval" where
  "js_not v = JBool (\<not> truthy v)"

text \<open>\<^verbatim>\<open>State\<close> of \<^verbatim>\<open>popup.js\<close>.\<close>

record popup_state =
  settings :: js_object
  isUpdating :: bool

text \<open>
  \<^verbatim>\<open>State.toggle(key)\<close>: what it returns and the state it leaves. The \<^verbatim>\<open>switch\<close> has
  the four cases \<^verbatim>\<open>main\<close>, \<^verbatim>\<open>copy\<close>, \<^verbatim>\<open>paste\<close>, \<^verbatim>\<open>input\<close> and no default.
\<close>

definition State_toggle :: "string \<Rightarrow> popup_state \<Rightarrow> js_object \<times> popup_state" where
  "State_toggle key st =
     (if isUpdating st then (settings st, st)
      else
        let newSettings = spread_into (settings st) [];
            newSettings =
              (if key = ''main''
               then AList.update ''mainEnabled'' (js_not (obj_get newSettings ''mainEnabled'')) newSettings
               else if key = ''copy''
               then (if truthy (obj_get newSettings ''mainEnabled'')
                     then AList.update ''copyEnabled'' (js_not (obj_get newSettings ''copyEnabled'')) newSettings
                     else newSettings)
               else if key = ''paste''
               then (if truthy (obj_get newSettings ''mainEnabled'')
                     then AList.update ''pasteEnabled'' (js_not (obj_get newSettings ''pasteEnabled'')) newSettings
                     else newSettings)
               else if key = ''input''
               then (if truthy (obj_get newSettings ''mainEnabled'')
                     then AList.update ''inputEnabled'' (js_not (obj_get newSettings ''inputEnabled'')) newSettings
                     else newSettings)
               else newSettings)
        in (newSettings, st\<lparr>settings := newSettings\<rparr>))"

text \<open>A settings record with the given flags, as \<^verbatim>\<open>State.settings\<close> holds it.\<close>

definition settings_record :: "bool \<Rightarrow> bool \<Rightarrow> bool \<Rightarrow> bool \<Rightarrow> string \<Rightarrow> js_object" where
  "settings_record m c p i ver = settings_object (JBool m) (JBool c) (JBool p) (JBool i) ver"

section \<open>Timers of the host\<close>

text \<open>
  \<^verbatim>\<open>setTimeout\<close> and \<^verbatim>\<open>clearTimeout\<close>: the host keeps a clock (in ms), the next timer
  id (ids are never reused) and the pending timers, each with its id, the time from
  which it may fire and its callback. \<^verbatim>\<open>clearTimeout\<close> of \<^verbatim>\<open>undefined\<close> or of an id
  that is no longer pending does nothing.
\<close>

record 'cb timers =
  clock :: nat
  next_id :: nat
  pending :: "(nat \<times> nat \<times> 'cb) list"

definition setTimeout :: "'cb \<Rightarrow> nat \<Rightarrow> ('cb, 'z) timers_scheme \<Rightarrow> nat \<times> ('cb, 'z) timers_scheme" where
  "setTimeout cb delay h =
     (next_id h,
      h\<lparr>next_id := next_id h + 1, pending := pending h @ [(next_id h, clock h + delay, cb)]\<rparr>)"

definition clearTimeout :: "nat option \<Rightarrow> ('cb, 'z) timers_scheme \<Rightarrow> ('cb, 'z) timers_scheme" where
  "clearTimeout timer h =
     (case timer of
        None \<Rightarrow> h
      | Some i \<Rightarrow> h\<lparr>pending := filter (\<lambda>(j, due, cb). j \<noteq> i) (pending h)\<rparr>)"

section \<open>The DOM observer of the content script\<close>

text \<open>
  A DOM node: its identity, \<^verbatim>\<open>nodeType\<close>, \<^verbatim>\<open>tagName\<close> (\<^verbatim>\<open>undefined\<close> on a node that is
  no element), attributes and children. A mutation record has its \<^verbatim>\<open>type\<close>, its
  \<^verbatim>\<open>target\<close> and its \<^verbatim>\<open>addedNodes\<close>.
\<close>

datatype node =
  Node (node_id: nat) (nodeType: nat) (tagName: "string option")
       (attrs: "(string \<times> string) list") (childNodes: "node list")

definition ELEMENT_NODE :: nat where
  "ELEMENT_NODE = 1"

text \<open>\<^verbatim>\<open>getAttribute(name)\<close>: the value, or \<^verbatim>\<open>null\<close> when the element lacks the attribute.\<close>

definition getAttribute :: "node \<Rightarrow> string \<Rightarrow> string option" where
  "getAttribute n name = map_of (attrs n) name"

datatype mutation_type = Attributes | CharacterData | ChildList

record mutation =
  mtype :: mutation_type
  target :: node
  addedNodes :: "node list"

text \<open>
  \<^verbatim>\<open>SmartDOMObserver.isValidMutation\<close>. The last test reads the value of
  \<^verbatim>\<open>getAttribute('data-unlock-processed')\<close> as a condition: \<^verbatim>\<open>null\<close> and the empty
  string are falsy.
\<close>

definition isValidMutation :: "mutation \<Rightarrow> bool" where
  "isValidMutation m =
     (if mtype m = CharacterData then False
      else if nodeType (target m) \<noteq> ELEMENT_NODE then False
      else
        let tag = map_option toLowerCase (tagName (target m))
        in if tag = Some ''script'' \<or> tag = Some ''style'' \<or> tag = Some ''link'' then False
           else if mtype m = Attributes \<and>
                   (case getAttribute (target m) ''data-unlock-processed'' of
                      None \<Rightarrow> False
                    | Some v \<Rightarrow> v \<noteq> [])
           then False
           else True)"

text \<open>
  The state of \<^verbatim>\<open>SmartDOMObserver\<close>, on the timers of the page: the queue, the id of
  the batch timer, the counter \<^verbatim>\<open>stats.processedMutations\<close>, and the arrays that
  \<^verbatim>\<open>processElements\<close> has been called with (what \<^verbatim>\<open>processElements\<close> does to the
  elements is not modelled).
\<close>

datatype observer_callback = BatchProcess

record observer = "observer_callback timers" +
  pendingMutations :: "mutation list"
  batchTimer :: "nat option"
  processedMutations :: nat
  processElements_calls :: "node list list"

definition THROTTLE_DELAY :: nat where
  "THROTTLE_DELAY = 16"

text \<open>\<^verbatim>\<open>SmartDOMObserver.handleMutations\<close>.\<close>

definition handleMutations :: "mutation list \<Rightarrow> observer \<Rightarrow> observer" where
  "handleMutations mutations st =
     (let validMutations = filter isValidMutation mutations
      in if length validMutations = 0 then st
         else
           let st1 = st\<lparr>pendingMutations := pendingMutations st @ validMutations\<rparr>;
               st2 = clearTimeout (batchTimer st1) st1
           in case setTimeout BatchProcess THROTTLE_DELAY st2 of
                (timer, st3) \<Rightarrow> st3\<lparr>batchTimer := Some timer\<rparr>)"

text \<open>\<^verbatim>\<open>Set.add\<close>: insertion order, no element twice.\<close>

definition set_add :: "'a \<Rightarrow> 'a list \<Rightarrow> 'a list" where
  "set_add x xs = (if x \<in> set xs then xs else xs @ [x])"

text \<open>\<^verbatim>\<open>node.querySelectorAll('*')\<close>: the elements below the node, in document order.\<close>

fun querySelectorAll_any :: "node \<Rightarrow> node list" where
  "querySelectorAll_any (Node i t tag as cs) =
     concat (map (\<lambda>c. (if nodeType c = ELEMENT_NODE then [c] else []) @ querySelectorAll_any c) cs)"

text \<open>The body of the \<^verbatim>\<open>forEach\<close> over the mutations in \<^verbatim>\<open>batchProcess\<close>.\<close>

definition collect :: "mutation \<Rightarrow> node list \<Rightarrow> node list" where
  "collect m elementsToProcess =
     (if mtype m = ChildList
      then fold (\<lambda>n acc.
                   if nodeType n = ELEMENT_NODE
                   then fold set_add (querySelectorAll_any n) (set_add n acc)
                   else acc)
             (addedNodes m) elementsToProcess
      else if mtype m = Attributes then set_add (target m) elementsToProcess
      else elementsToProcess)"

definition processElements :: "node list \<Rightarrow> observer \<Rightarrow> observer" where
  "processElements elements st =
     st\<lparr>processElements_calls := processElements_calls st @ [elements]\<rparr>"

text \<open>\<^verbatim>\<open>SmartDOMObserver.batchProcess\<close>; \<^verbatim>\<open>splice(0)\<close> empties the queue.\<close>

definition batchProcess :: "observer \<Rightarrow> observer" where
  "batchProcess st =
     (if length (pendingMutations st) = 0 then st
      else
        let mutations = pendingMutations st;
            st1 = st\<lparr>pendingMutations := []\<rparr>;
            elementsToProcess = fold collect mutations [];
            st2 = processElements elementsToProcess st1
        in st2\<lparr>processedMutations := processedMutations st2 + length mutations\<rparr>)"

text \<open>
  The mutations to skip and the elements of a batch, in the words of the
  specification: a target is a script, style or link element; a target carries the
  attribute \<^verbatim>\<open>data-unlock-processed\<close>; the nodes below a node; the elements a queued
  mutation contributes.
\<close>

definition is_script_style_link :: "node \<Rightarrow> bool" where
  "is_script_style_link n =
     (case tagName n of
        None \<Rightarrow> False
      | Some t \<Rightarrow> toLowerCase t \<in> {''script'', ''style'', ''link''})"

definition carries_mark :: "node \<Rightarrow> bool" where
  "carries_mark n = (getAttribute n ''data-unlock-processed'' \<noteq> None)"

definition claimed_skip :: "mutation \<Rightarrow> bool" where
  "claimed_skip m =
     (mtype m = CharacterData \<or> nodeType (target m) \<noteq> ELEMENT_NODE \<or>
      is_script_style_link (target m) \<or>
      (mtype m = Attributes \<and> carries_mark (target m)))"

definition marked_processed :: "node \<Rightarrow> bool" where
  "marked_processed n =
     (case getAttribute n ''data-unlock-processed'' of None \<Rightarrow> False | Some v \<Rightarrow> v \<noteq> [])"

definition skipped :: "mutation \<Rightarrow> bool" where
  "skipped m =
     (mtype m = CharacterData \<or> nodeType (target m) \<noteq> ELEMENT_NODE \<or>
      is_script_style_link (target m) \<or>
      (mtype m = Attributes \<and> marked_processed (target m)))"

fun descendants :: "node \<Rightarrow> node set" where
  "descendants (Node i t tag as cs) = (\<Union>c \<in> set cs. insert c (descendants c))"

definition batch_elements :: "mutation \<Rightarrow> node set" where
  "batch_elements m =
     (case mtype m of
        ChildList \<Rightarrow>
          (\<Union>n \<in> {n \<in> set (addedNodes m). nodeType n = ELEMENT_NODE}.
             insert n {d \<in> descendants n. nodeType d = ELEMENT_NODE})
      | Attributes \<Rightarrow> {target m}
      | CharacterData \<Rightarrow> {})"

text \<open>
  Mutations and an observer to try: an attribute change on a \<^verbatim>\<open>div\<close> whose mark is
  the empty string, one on a \<^verbatim>\<open>div\<close> marked \<^verbatim>\<open>true\<close>, and a \<^verbatim>\<open>section\<close> added with a
  paragraph and a text node below it.
\<close>

definition empty_mark_mutation :: mutation where
  "empty_mark_mutation =
     \<lparr>mtype = Attributes,
      target = Node 7 1 (Some ''DIV'') [(''data-unlock-processed'', [])] [],
      addedNodes = []\<rparr>"

definition marked_mutation :: mutation where
  "marked_mutation =
     \<lparr>mtype = Attributes,
      target = Node 8 1 (Some ''DIV'') [(''data-unlock-processed'', ''true'')] [],
      addedNodes = []\<rparr>"

definition added_section :: node where
  "added_section =
     Node 2 1 (Some ''SECTION'') []
       [Node 3 1 (Some ''P'') [] [Node 4 3 None [] []], Node 5 3 None [] []]"

definition added_mutation :: mutation where
  "added_mutation =
     \<lparr>mtype = ChildList, target = Node 1 1 (Some ''BODY'') [] [added_section],
      addedNodes = [added_section, Node 6 3 None [] []]\<rparr>"

definition idle_observer :: observer where
  "idle_observer =
     \<lparr>clock = 0, next_id = 1, pending = [], pendingMutations = [], batchTimer = None,
      processedMutations = 0, processElements_calls = []\<rparr>"

definition queued_observer :: observer where
  "queued_observer =
     handleMutations [marked_mutation, added_mutation, empty_mark_mutation] idle_observer"

text \<open>
  The two operations on the queue that the script ever performs (\<^verbatim>\<open>disconnect\<close> is
  defined and never called), and a sequence of them.
\<close>

datatype observer_step = Observe "mutation list" | Batch

fun observer_run :: "observer_step list \<Rightarrow> observer \<Rightarrow> observer" where
  "observer_run [] st = st"
| "observer_run (Observe ms # steps) st = observer_run steps (handleMutations ms st)"
| "observer_run (Batch # steps) st = observer_run steps (batchProcess st)"

fun observed :: "observer_step list \<Rightarrow> mutation list" where
  "observed [] = []"
| "observed (Observe ms # steps) = filter isValidMutation ms @ observed steps"
| "observed (Batch # steps) = observed steps"

section \<open>Debouncing\<close>











text \<open>A browser that rejects the next storage call.\<close>

definition rejecting_store :: chrome where
  "rejecting_store = example_store\<lparr>storage_faults := [True]\<rparr>"

section \<open>Settings validation and storage: proofs\<close>

lemma digit_nth: "n < 10 \<Longrightarrow> ''0123456789'' ! n \<in> set ''0123456789''"
  by (rule nth_mem) simp

lemma string_of_nat_digits: "set (string_of_nat n) \<subseteq> set ''0123456789''"
proof (induction n rule: string_of_nat.induct)
  case (1 n)
  show ?case
  proof (cases "n < 10")
    case True
    then show ?thesis using digit_nth[of n] by (subst string_of_nat.simps) simp
  next
    case False
    have "n mod 10 < 10" by simp
    then have "''0123456789'' ! (n mod 10) \<in> set ''0123456789''" by (rule digit_nth)
    then show ?thesis using False 1 by (subst string_of_nat.simps) simp
  qed
qed

lemma typeof_boolean: "typeof v = TBoolean \<longleftrightarrow> (\<exists>b. v = JBool b)"
  by (cases v) auto

lemma flag_cases:
  "k \<in> set flag_keys \<Longrightarrow>
   k = ''mainEnabled'' \<or> k = ''copyEnabled'' \<or> k = ''pasteEnabled'' \<or> k = ''inputEnabled''"
  by (simp add: flag_keys_def)

lemma flag_has_letter: "k \<in> set flag_keys \<Longrightarrow> CHR ''n'' \<in> set k"
  using flag_cases[of k] by (elim disjE | simp)+

lemma flag_not_numeral:
  assumes "k \<in> set flag_keys"
  shows "string_of_nat i \<noteq> k"
proof
  assume e: "string_of_nat i = k"
  have "CHR ''n'' \<in> set (string_of_nat i)" using flag_has_letter[OF assms] e by simp
  then have "CHR ''n'' \<in> set ''0123456789''" using string_of_nat_digits[of i] by blast
  then show False by simp
qed

lemma Object_prototype_get_flag: "k \<in> set flag_keys \<Longrightarrow> Object_prototype_get k = JUndefined"
  using flag_cases[of k]
  by (elim disjE | simp add: Object_prototype_get_def Object_prototype_keys_def)+

lemma Array_prototype_get_flag: "k \<in> set flag_keys \<Longrightarrow> Array_prototype_get k = JUndefined"
  using flag_cases[of k]
  by (elim disjE | simp add: Array_prototype_get_def Array_prototype_keys_def Object_prototype_get_def Object_prototype_keys_def)+

lemma flag_not_length: "k \<in> set flag_keys \<Longrightarrow> k \<noteq> ''length''"
  using flag_cases[of k] by (elim disjE | simp)+

lemma arr_get_flag: "k \<in> set flag_keys \<Longrightarrow> arr_get xs k = JUndefined"
proof -
  assume k: "k \<in> set flag_keys"
  have "find (\<lambda>i. string_of_nat i = k) [0..<length xs] = None"
    using flag_not_numeral[OF k] by (simp add: find_None_iff)
  then show ?thesis
    using Array_prototype_get_flag[OF k] flag_not_length[OF k] by (simp add: arr_get_def)
qed

lemma member_flag:
  assumes "k \<in> set flag_keys" "truthy s" "typeof s = TObject"
  shows "member s k = (case stored_field s k of Some v \<Rightarrow> v | None \<Rightarrow> JUndefined)"
  using assms by (cases s) (simp_all add: obj_get_def arr_get_flag Object_prototype_get_flag split: option.splits)

lemma flag_keys_mem:
  "''mainEnabled'' \<in> set flag_keys" "''copyEnabled'' \<in> set flag_keys"
  "''pasteEnabled'' \<in> set flag_keys" "''inputEnabled'' \<in> set flag_keys"
  by (simp_all add: flag_keys_def)

lemma pick_flag:
  assumes "k \<in> set flag_keys" "truthy s" "typeof s = TObject"
  shows "(if typeof (member s k) = TBoolean then member s k else default_flag k)
         = flag_from (stored_field s k) k"
proof (cases "stored_field s k")
  case None
  then show ?thesis using member_flag[OF assms] by (simp add: flag_from_def)
next
  case (Some v)
  then show ?thesis using member_flag[OF assms] by (cases v) (simp_all add: flag_from_def)
qed

lemma fold_flags:
  "fold (\<lambda>key validated.
           if typeof (f key) = TBoolean then AList.update key (f key) validated else validated)
     flag_keys (DEFAULT_SETTINGS ver)
   = settings_object
       (if typeof (f ''mainEnabled'') = TBoolean then f ''mainEnabled'' else default_flag ''mainEnabled'')
       (if typeof (f ''copyEnabled'') = TBoolean then f ''copyEnabled'' else default_flag ''copyEnabled'')
       (if typeof (f ''pasteEnabled'') = TBoolean then f ''pasteEnabled'' else default_flag ''pasteEnabled'')
       (if typeof (f ''inputEnabled'') = TBoolean then f ''inputEnabled'' else default_flag ''inputEnabled'')
       ver"
  by (simp add: flag_keys_def DEFAULT_SETTINGS_def settings_object_def default_flag_def)

lemma stored_field_not_object:
  "\<not> truthy s \<or> typeof s \<noteq> TObject \<Longrightarrow> stored_field s k = None"
  by (cases s) simp_all

lemma DEFAULT_SETTINGS_eq:
  "DEFAULT_SETTINGS ver =
     settings_object (default_flag ''mainEnabled'') (default_flag ''copyEnabled'')
       (default_flag ''pasteEnabled'') (default_flag ''inputEnabled'') ver"
  by (simp add: DEFAULT_SETTINGS_def settings_object_def default_flag_def)

lemma validateSettings_eq: "validateSettings ver s = settings_of_stored ver s"
proof (cases "\<not> truthy s \<or> typeof s \<noteq> TObject")
  case True
  then show ?thesis
    by (simp add: validateSettings_def settings_of_stored_def stored_field_not_object
        flag_from_def DEFAULT_SETTINGS_eq)
next
  case False
  then have t: "truthy s" "typeof s = TObject" by simp_all
  show ?thesis
    using False
    by (simp add: validateSettings_def settings_of_stored_def fold_flags
        pick_flag[OF _ t] flag_keys_mem)
qed

lemma validateSettings_content_eq:
  "validateSettings_content s = validateSettings VERSION_content s"
  by (simp add: validateSettings_content_def validateSettings_def flag_keys_def Let_def)

lemma flag_from_bool: "\<exists>b. flag_from x k = JBool b"
  by (cases x) (auto simp: flag_from_def default_flag_def split: jsval.splits)

lemma settings_of_stored_record: "is_settings_record ver (settings_of_stored ver v)"
  unfolding is_settings_record_def settings_of_stored_def
  using flag_from_bool[of "stored_field v ''mainEnabled''" "''mainEnabled''"]
        flag_from_bool[of "stored_field v ''copyEnabled''" "''copyEnabled''"]
        flag_from_bool[of "stored_field v ''pasteEnabled''" "''pasteEnabled''"]
        flag_from_bool[of "stored_field v ''inputEnabled''" "''inputEnabled''"]
  by (elim exE, simp) blast

lemma DEFAULT_SETTINGS_record: "is_settings_record ver (DEFAULT_SETTINGS ver)"
  unfolding is_settings_record_def DEFAULT_SETTINGS_eq default_flag_def by simp blast

lemma storage_call_ok: "storage_ok (Suc n) c \<Longrightarrow> fst (storage_call c) = False"
  by (cases "storage_faults c") (auto simp: storage_ok_def storage_call_def)

lemma storage_call_ok_next: "storage_ok (Suc n) c \<Longrightarrow> storage_ok n (snd (storage_call c))"
  by (cases "storage_faults c") (auto simp: storage_ok_def storage_call_def dest: in_set_takeD)

lemma storage_call_unlockSettings: "unlockSettings (snd (storage_call c)) = unlockSettings c"
  by (cases "storage_faults c") (auto simp: storage_call_def)

text \<open>
  C1. Whatever is stored under \<^verbatim>\<open>unlockSettings\<close>, \<^verbatim>\<open>Storage.getSettings\<close> of
  \<^verbatim>\<open>content.js\<close> returns an object with exactly the five fields \<^verbatim>\<open>mainEnabled\<close>,
  \<^verbatim>\<open>copyEnabled\<close>, \<^verbatim>\<open>pasteEnabled\<close>, \<^verbatim>\<open>inputEnabled\<close> (booleans) and \<^verbatim>\<open>version\<close>
  (the version constant of the script); when the read of the storage succeeds, each
  flag is the stored field if that is a boolean and the default of the flag otherwise.
\<close>

theorem getSettings_validated:
  "is_settings_record VERSION_content (fst (Storage_getSettings_content c)) \<and>
   (storage_ok 1 c \<longrightarrow>
      fst (Storage_getSettings_content c) = settings_of_stored VERSION_content (unlockSettings c))"
proof -
  obtain f c' where sc: "storage_call c = (f, c')" by (cases "storage_call c")
  have u: "unlockSettings c' = unlockSettings c"
    using storage_call_unlockSettings[of c] sc by simp
  have "is_settings_record VERSION_content (fst (Storage_getSettings_content c))"
    using sc
    by (cases f) (simp_all add: Storage_getSettings_content_def DEFAULT_SETTINGS_record
        validateSettings_content_eq validateSettings_eq settings_of_stored_record)
  moreover have "fst (Storage_getSettings_content c)
      = settings_of_stored VERSION_content (unlockSettings c)" if "storage_ok 1 c"
  proof -
    have "f = False" using storage_call_ok[of 0 c] that sc by simp
    then show ?thesis
      using sc u by (simp add: Storage_getSettings_content_def validateSettings_content_eq
          validateSettings_eq)
  qed
  ultimately show ?thesis by blast
qed

theorem getSettings_validated_witness:
  "storage_ok 1 example_store \<and>
   fst (Storage_getSettings_content example_store)
     = [(''mainEnabled'', JBool True), (''copyEnabled'', JBool False),
        (''pasteEnabled'', JBool True), (''inputEnabled'', JBool True),
        (''version'', JStr ''8.1.0'')]"
  using getSettings_validated[of example_store]
  by (simp add: example_store_def storage_ok_def settings_of_stored_def flag_from_def
      default_flag_def settings_object_def VERSION_content_def)

text \<open>
  When the browser rejects the read, \<^verbatim>\<open>getSettings\<close> logs the error and returns the
  defaults, whatever is stored.
\<close>

lemma storage_call_rejected: "\<not> storage_ok 1 c \<Longrightarrow> fst (storage_call c) = True"
  by (cases "storage_faults c") (auto simp: storage_ok_def storage_call_def)

lemma getSettings_rejected:
  assumes "\<not> storage_ok 1 c"
  shows "fst (Storage_getSettings_content c) = DEFAULT_SETTINGS VERSION_content"
    and "fst (Storage_getSettings ver c) = DEFAULT_SETTINGS ver"
  using storage_call_rejected[of c] assms
  by (cases "storage_call c"; simp add: Storage_getSettings_content_def Storage_getSettings_def)+

lemma getSettings_rejecting_store:
  "fst (Storage_getSettings_content rejecting_store) = DEFAULT_SETTINGS VERSION_content"
  "errors (snd (Storage_getSettings_content rejecting_store))
     = [(''Failed to get settings from storage:'', StorageError)]"
  by (simp_all add: Storage_getSettings_content_def storage_call_def rejecting_store_def
      example_store_def Logger_error_def)

lemma flag_from_idem: "flag_from (Some (flag_from x k)) k = flag_from x k"
  using flag_from_bool[of x k] by (auto simp: flag_from_def)

lemma validateSettings_idem:
  "validateSettings ver (JObj (validateSettings ver s)) = validateSettings ver s"
  by (simp add: validateSettings_eq settings_of_stored_def settings_object_def flag_from_idem)

lemma IconManager_update_storage:
  "unlockSettings (IconManager_update e c) = unlockSettings c"
  "storage_faults (IconManager_update e c) = storage_faults c"
  by (cases "action_faults c"; cases "tl (action_faults c)";
      simp add: IconManager_update_def action_call_def Logger_error_def Let_def
           split: prod.splits list.splits bool.splits)+

text \<open>
  C2. In \<^verbatim>\<open>background.js\<close>, when the write and the read of the storage succeed,
  \<^verbatim>\<open>Storage.saveSettings(s)\<close> returns \<^verbatim>\<open>true\<close> and a following \<^verbatim>\<open>Storage.getSettings\<close>
  returns \<^verbatim>\<open>validateSettings(s)\<close>, for every value \<^verbatim>\<open>s\<close>; and \<^verbatim>\<open>validateSettings\<close> is
  idempotent.
\<close>

theorem saveSettings_getSettings:
  assumes "storage_ok 2 c"
  shows "fst (Storage_saveSettings ver s c) = True \<and>
         fst (Storage_getSettings ver (snd (Storage_saveSettings ver s c))) = validateSettings ver s \<and>
         validateSettings ver (JObj (validateSettings ver s)) = validateSettings ver s"
proof -
  obtain f c1 where sc: "storage_call c = (f, c1)" by (cases "storage_call c")
  have ok2: "storage_ok (Suc 1) c" using assms by (simp add: numeral_2_eq_2)
  have f: "f = False" using storage_call_ok[OF ok2] sc by simp
  have ok1: "storage_ok (Suc 0) c1" using storage_call_ok_next[OF ok2] sc by simp
  define c2 where "c2 = IconManager_update (obj_get (validateSettings ver s) ''mainEnabled'')
                          (c1\<lparr>unlockSettings := JObj (validateSettings ver s)\<rparr>)"
  have save: "Storage_saveSettings ver s c = (True, c2)"
    using sc f by (simp add: Storage_saveSettings_def c2_def Let_def)
  have u2: "unlockSettings c2 = JObj (validateSettings ver s)"
    by (simp add: c2_def IconManager_update_storage)
  have "storage_faults c2 = storage_faults c1"
    by (simp add: c2_def IconManager_update_storage)
  then have ok1': "storage_ok (Suc 0) c2" using ok1 by (simp add: storage_ok_def)
  obtain g c3 where sc2: "storage_call c2 = (g, c3)" by (cases "storage_call c2")
  have g: "g = False" using storage_call_ok[OF ok1'] sc2 by simp
  have u3: "unlockSettings c3 = unlockSettings c2"
    using storage_call_unlockSettings[of c2] sc2 by simp
  have "fst (Storage_getSettings ver c2) = validateSettings ver (JObj (validateSettings ver s))"
    using sc2 g u3 u2 by (simp add: Storage_getSettings_def)
  then show ?thesis using save by (simp add: validateSettings_idem)
qed

theorem saveSettings_getSettings_witness:
  "storage_ok 2 example_store \<and>
   fst (Storage_getSettings VERSION_background
          (snd (Storage_saveSettings VERSION_background
                  (JObj [(''mainEnabled'', JBool True), (''copyEnabled'', JNum 0)]) example_store)))
     = [(''mainEnabled'', JBool True), (''copyEnabled'', JBool True),
        (''pasteEnabled'', JBool True), (''inputEnabled'', JBool True),
        (''version'', JStr ''8.1.0'')]"
  using saveSettings_getSettings[of example_store VERSION_background
      "JObj [(''mainEnabled'', JBool True), (''copyEnabled'', JNum 0)]"]
  by (simp add: example_store_def storage_ok_def validateSettings_eq settings_of_stored_def
      flag_from_def default_flag_def settings_object_def VERSION_background_def)

text \<open>
  When the browser rejects the write, \<^verbatim>\<open>saveSettings\<close> returns \<^verbatim>\<open>false\<close> and the stored
  settings stay as they were.
\<close>

lemma saveSettings_rejected:
  assumes "\<not> storage_ok 1 c"
  shows "fst (Storage_saveSettings ver s c) = False"
    and "unlockSettings (snd (Storage_saveSettings ver s c)) = unlockSettings c"
  using storage_call_rejected[of c] storage_call_unlockSettings[of c] assms
  by (cases "storage_call c"; simp add: Storage_saveSettings_def Logger_error_def Let_def)+

text \<open>The same round trip in \<^verbatim>\<open>content.js\<close>, whose \<^verbatim>\<open>saveSettings\<close> leaves the badge alone.\<close>

lemma saveSettings_getSettings_content:
  assumes "storage_ok 2 c"
  shows "fst (Storage_getSettings_content (snd (Storage_saveSettings_content s c)))
         = validateSettings_content s"
proof -
  have ok2: "storage_ok (Suc 1) c" using assms by (simp add: numeral_2_eq_2)
  obtain f c1 where sc: "storage_call c = (f, c1)" by (cases "storage_call c")
  have f: "f = False" using storage_call_ok[OF ok2] sc by simp
  have ok1: "storage_ok (Suc 0) c1" using storage_call_ok_next[OF ok2] sc by simp
  define c2 where "c2 = c1\<lparr>unlockSettings := JObj (validateSettings_content s)\<rparr>"
  have ok1': "storage_ok (Suc 0) c2" using ok1 by (simp add: storage_ok_def c2_def)
  obtain g c3 where sc2: "storage_call c2 = (g, c3)" by (cases "storage_call c2")
  have g: "g = False" using storage_call_ok[OF ok1'] sc2 by simp
  have u3: "unlockSettings c3 = JObj (validateSettings_content s)"
    using storage_call_unlockSettings[of c2] sc2 by (simp add: c2_def)
  show ?thesis
    using sc f sc2 g u3
    by (simp add: Storage_saveSettings_content_def Storage_getSettings_content_def c2_def
        validateSettings_content_eq validateSettings_idem)
qed

section \<open>Error handling: proofs\<close>

text \<open>
  C3. The function made by \<^verbatim>\<open>ErrorHandler.wrap(fn, context)\<close> returns what \<^verbatim>\<open>fn\<close>
  returns, in the state \<^verbatim>\<open>fn\<close> leaves, when \<^verbatim>\<open>fn\<close> returns; when \<^verbatim>\<open>fn\<close> throws it
  returns \<^verbatim>\<open>undefined\<close>, and the state is the one \<^verbatim>\<open>fn\<close> left at the throw with one
  entry more in the error log and nothing else changed; it never throws.
\<close>

theorem wrap_never_throws:
  "(\<forall>v s'. fn this args s = (Inr v, s') \<longrightarrow>
       ErrorHandler_wrap fn context this args s = (Inr v, s')) \<and>
   (\<forall>e s'. fn this args s = (Inl e, s') \<longrightarrow>
       fst (ErrorHandler_wrap fn context this args s) = Inr JUndefined \<and>
       snd (ErrorHandler_wrap fn context this args s)
         = s'\<lparr>errors := errors s' @
               [(''Error in '' @ (case context of None \<Rightarrow> [] | Some c \<Rightarrow> c) @ '':'', e)]\<rparr>) \<and>
   (\<forall>e. fst (ErrorHandler_wrap fn context this args s) \<noteq> Inl e)"
proof -
  obtain r s' where r: "fn this args s = (r, s')" by (cases "fn this args s")
  show ?thesis
    by (cases r) (simp_all add: r ErrorHandler_wrap_def Logger_error_def Let_def)
qed

theorem wrap_never_throws_witness:
  "failing_function JUndefined [] example_store
     = (Inl (TypeError ''x is not a function''), example_store\<lparr>badgeText := ''!''\<rparr>) \<and>
   fst (ErrorHandler_wrap failing_function (Some ''click'') JUndefined [] example_store)
     = Inr JUndefined \<and>
   snd (ErrorHandler_wrap failing_function (Some ''click'') JUndefined [] example_store)
     = example_store\<lparr>badgeText := ''!'',
         errors := [(''Error in click:'', TypeError ''x is not a function'')]\<rparr> \<and>
   returning_function JUndefined [JNum 7] example_store = (Inr (JNum 7), example_store) \<and>
   ErrorHandler_wrap returning_function None JUndefined [JNum 7] example_store
     = (Inr (JNum 7), example_store)"
  using wrap_never_throws[of failing_function JUndefined "[]" example_store "Some ''click''"]
        wrap_never_throws[of returning_function JUndefined "[JNum 7]" example_store None]
  by (simp add: failing_function_def returning_function_def example_store_def)

section \<open>Site dispatch: proofs\<close>

lemma is_simps:
  "PageDetector_is ''feishu'' h = Inr (pattern_matches h ''feishu'')"
  "PageDetector_is ''pintia'' h = Inr (pattern_matches h ''pintia'')"
  "PageDetector_is ''chaoxing'' h = Inr (pattern_matches h ''chaoxing'')"
  "PageDetector_is ''csdn'' h = Inr (pattern_matches h ''csdn'')"
  "PageDetector_is ''docin'' h = Inr (pattern_matches h ''docin'')"
  "PageDetector_is ''educoder'' h = Inr (pattern_matches h ''educoder'')"
  "PageDetector_is ''baiduwenku'' h = Inr (pattern_matches h ''baiduwenku'')"
  "PageDetector_is ''weixin'' h = Inr (pattern_matches h ''weixin'')"
  "PageDetector_is ''cnki'' h = Inr (pattern_matches h ''cnki'')"
  "PageDetector_is ''zhihu'' h = Inr (pattern_matches h ''zhihu'')"
  by (simp_all add: PageDetector_is_def pattern_matches_def PageDetector_types_def)

lemma enableFeatures_eq:
  "enableFeatures hostname =
     Inr ((case first_matching_type hostname of
             Some t \<Rightarrow> [SiteHandler t]
           | None \<Rightarrow> generic_unlock) @ common_setup)"
  by (simp add: enableFeatures_def is_simps if_is_def first_matching_type_def handler_order_def
      generic_unlock_def common_setup_def)

lemma one_site_handler:
  "length (filter is_site_handler
     ((case first_matching_type hostname of
         Some t \<Rightarrow> [SiteHandler t]
       | None \<Rightarrow> generic_unlock) @ common_setup)) \<le> 1"
  by (simp add: generic_unlock_def common_setup_def split: option.split)

lemma types_table: "length PageDetector_types = 12"
  by (simp add: PageDetector_types_def)

lemma handler_order_in_table: "set handler_order \<subseteq> set (map fst PageDetector_types)"
  by (simp add: handler_order_def PageDetector_types_def)

text \<open>
  C4. For every hostname \<^verbatim>\<open>App.enableFeatures\<close> returns, having run first the handler
  of the first type, in the order feishu, pintia, chaoxing, csdn, docin, educoder,
  baiduwenku, weixin, cnki, zhihu, whose pattern in the table of twelve matches the
  hostname, or the generic path (\<^verbatim>\<open>removeSpecificEventListeners\<close>, \<^verbatim>\<open>interceptXHR\<close>,
  \<^verbatim>\<open>interceptFetch\<close>) when none of the ten matches; at most one site handler runs.
\<close>

theorem enableFeatures_dispatch:
  "enableFeatures hostname =
     Inr ((case first_matching_type hostname of
             Some t \<Rightarrow> [SiteHandler t]
           | None \<Rightarrow> generic_unlock) @ common_setup) \<and>
   (\<exists>acts. enableFeatures hostname = Inr acts \<and> length (filter is_site_handler acts) \<le> 1) \<and>
   length PageDetector_types = 12 \<and>
   set handler_order \<subseteq> set (map fst PageDetector_types)"
  using enableFeatures_eq[of hostname] one_site_handler[of hostname] types_table
    handler_order_in_table by simp

text \<open>
  A hostname that two patterns match runs the handler of the earlier type only; a
  hostname that only the patterns without a handler (juejin, baidu) match takes the
  generic path.
\<close>

lemma enableFeatures_wenku:
  "enableFeatures ''wenku.baidu.com'' = Inr (SiteHandler ''baiduwenku'' # common_setup)"
  by code_simp

lemma enableFeatures_two_matches:
  "enableFeatures ''feishu.cn.csdn.net'' = Inr (SiteHandler ''feishu'' # common_setup)"
  by code_simp

lemma enableFeatures_upper_case:
  "enableFeatures ''www.ZHIHU.com'' = Inr (SiteHandler ''zhihu'' # common_setup)"
  by code_simp

lemma enableFeatures_juejin:
  "enableFeatures ''juejin.cn'' = Inr (generic_unlock @ common_setup)"
  by code_simp

section \<open>Restriction notices: proofs\<close>

lemma slice_last_length: "length (slice_last n xs) \<le> n"
  by (simp add: slice_last_def)

lemma storage_call_notifiedSites: "notifiedSites (snd (storage_call c)) = notifiedSites c"
  by (cases "storage_faults c") (simp_all add: storage_call_def)

lemma storage_call_faults:
  "storage_faults (snd (storage_call c)) = tl (storage_faults c)"
  by (cases "storage_faults c") (simp_all add: storage_call_def)

lemma getSettings_notifiedSites:
  "notifiedSites (snd (Storage_getSettings ver c)) = notifiedSites c"
  using storage_call_notifiedSites[of c]
  by (cases "storage_call c") (auto simp: Storage_getSettings_def Logger_error_def split: bool.splits)

lemma getSettings_faults:
  "storage_faults (snd (Storage_getSettings ver c)) = tl (storage_faults c)"
  using storage_call_faults[of c]
  by (cases "storage_call c") (auto simp: Storage_getSettings_def Logger_error_def split: bool.splits)

lemma getNotifiedSites_notifiedSites:
  "notifiedSites (snd (getNotifiedSites c)) = notifiedSites c"
  using storage_call_notifiedSites[of c]
  by (cases "storage_call c") (auto simp: getNotifiedSites_def split: bool.splits)

lemma getNotifiedSites_result:
  "fst (getNotifiedSites c) = [] \<or> notifiedSites c = Some (fst (getNotifiedSites c))"
  using storage_call_notifiedSites[of c]
  by (cases "storage_call c") (auto simp: getNotifiedSites_def split: option.splits bool.splits)

lemma getNotifiedSites_ok:
  "storage_ok (Suc n) c \<Longrightarrow> notifiedSites c = Some stored \<Longrightarrow> fst (getNotifiedSites c) = stored"
  using storage_call_notifiedSites[of c] storage_call_ok[of n c]
  by (cases "storage_call c") (auto simp: getNotifiedSites_def split: bool.splits)

lemma showRestrictionNotification_notifiedSites:
  "notifiedSites (showRestrictionNotification c) = notifiedSites c"
  by (cases "action_faults c"; cases "tl (action_faults c)";
      simp add: showRestrictionNotification_def action_call_def Logger_error_def
           split: prod.splits list.splits bool.splits)

lemma saveNotifiedSites_stored:
  "notifiedSites (saveNotifiedSites sites c) = notifiedSites c \<or>
   notifiedSites (saveNotifiedSites sites c) = Some (slice_last 20 sites)"
  using storage_call_notifiedSites[of c]
  by (cases "storage_call c") (auto simp: saveNotifiedSites_def Logger_error_def Let_def split: bool.splits)

lemma saveNotifiedSites_ok:
  "storage_ok (Suc n) c \<Longrightarrow> notifiedSites (saveNotifiedSites sites c) = Some (slice_last 20 sites)"
  using storage_call_ok[of n c]
  by (cases "storage_call c") (auto simp: saveNotifiedSites_def Let_def split: bool.splits)

lemma handle_stored:
  "\<exists>sites. (sites = [] \<or> notifiedSites c = Some sites) \<and>
     (notifiedSites (snd (handleRestrictionDetected ver h c)) = notifiedSites c \<or>
      notifiedSites (snd (handleRestrictionDetected ver h c)) = Some (slice_last 20 (sites @ [JStr h])))"
proof -
  obtain cur c1 where g: "Storage_getSettings ver c = (cur, c1)" by (cases "Storage_getSettings ver c")
  obtain sites c2 where n: "getNotifiedSites c1 = (sites, c2)" by (cases "getNotifiedSites c1")
  have n1: "notifiedSites c1 = notifiedSites c" using getSettings_notifiedSites[of ver c] g by simp
  have n2: "notifiedSites c2 = notifiedSites c" using getNotifiedSites_notifiedSites[of c1] n n1 by simp
  have s: "sites = [] \<or> notifiedSites c = Some sites"
    using getNotifiedSites_result[of c1] n n1 by simp
  have "notifiedSites (snd (handleRestrictionDetected ver h c)) = notifiedSites c \<or>
        notifiedSites (snd (handleRestrictionDetected ver h c)) = Some (slice_last 20 (sites @ [JStr h]))"
    using saveNotifiedSites_stored[of "sites @ [JStr h]" c2] n1 n2
    by (auto simp: handleRestrictionDetected_def g n Let_def showRestrictionNotification_notifiedSites)
  then show ?thesis using s by blast
qed

lemma handle_bounded:
  "sites_bounded c \<Longrightarrow> sites_bounded (snd (handleRestrictionDetected ver h c))"
  using handle_stored[of c ver h] slice_last_length[of 20]
  by (auto simp: sites_bounded_def split: option.splits)

lemma handle_enabled:
  assumes "truthy (obj_get (fst (Storage_getSettings ver c)) ''mainEnabled'')"
  shows "fst (handleRestrictionDetected ver h c) = [(''success'', JBool True), (''notified'', JBool False)]"
    and "notifiedSites (snd (handleRestrictionDetected ver h c)) = notifiedSites c"
  using assms getSettings_notifiedSites[of ver c]
  by (cases "Storage_getSettings ver c"; simp add: handleRestrictionDetected_def)+

lemma handle_known:
  assumes "storage_ok 2 c" "notifiedSites c = Some stored" "JStr h \<in> set stored"
  shows "fst (handleRestrictionDetected ver h c) = [(''success'', JBool True), (''notified'', JBool False)]"
    and "notifiedSites (snd (handleRestrictionDetected ver h c)) = notifiedSites c"
proof -
  obtain cur c1 where g: "Storage_getSettings ver c = (cur, c1)" by (cases "Storage_getSettings ver c")
  obtain sites c2 where n: "getNotifiedSites c1 = (sites, c2)" by (cases "getNotifiedSites c1")
  have n1: "notifiedSites c1 = notifiedSites c" using getSettings_notifiedSites[of ver c] g by simp
  have n2: "notifiedSites c2 = notifiedSites c" using getNotifiedSites_notifiedSites[of c1] n n1 by simp
  have "storage_faults c1 = tl (storage_faults c)" using getSettings_faults[of ver c] g by simp
  then have "storage_ok (Suc 0) c1" using assms(1)
    by (cases "storage_faults c") (auto simp: storage_ok_def numeral_2_eq_2)
  then have "sites = stored" using getNotifiedSites_ok[of 0 c1 stored] n n1 assms(2) by simp
  then show "fst (handleRestrictionDetected ver h c) = [(''success'', JBool True), (''notified'', JBool False)]"
    "notifiedSites (snd (handleRestrictionDetected ver h c)) = notifiedSites c"
    using assms(3) n1 n2 by (auto simp: handleRestrictionDetected_def g n)
qed

lemma handle_new:
  assumes "storage_ok 3 c" "\<not> truthy (obj_get (fst (Storage_getSettings ver c)) ''mainEnabled'')"
    "notifiedSites c = Some stored" "JStr h \<notin> set stored"
  shows "fst (handleRestrictionDetected ver h c) = [(''success'', JBool True), (''notified'', JBool True)]"
    and "notifiedSites (snd (handleRestrictionDetected ver h c))
           = Some (drop (length (stored @ [JStr h]) - 20) (stored @ [JStr h]))"
proof -
  obtain cur c1 where g: "Storage_getSettings ver c = (cur, c1)" by (cases "Storage_getSettings ver c")
  obtain sites c2 where n: "getNotifiedSites c1 = (sites, c2)" by (cases "getNotifiedSites c1")
  have n1: "notifiedSites c1 = notifiedSites c" using getSettings_notifiedSites[of ver c] g by simp
  have f1: "storage_faults c1 = tl (storage_faults c)" using getSettings_faults[of ver c] g by simp
  then have ok1: "storage_ok (Suc (Suc 0)) c1" using assms(1)
    by (cases "storage_faults c") (auto simp: storage_ok_def numeral_3_eq_3)
  then have s: "sites = stored" using getNotifiedSites_ok[of "Suc 0" c1 stored] n n1 assms(3) by simp
  have "c2 = snd (storage_call c1)"
    using n by (cases "storage_call c1") (auto simp: getNotifiedSites_def split: bool.splits)
  then have ok2: "storage_ok (Suc 0) c2" using storage_call_ok_next[OF ok1] by simp
  have saved: "notifiedSites (saveNotifiedSites (stored @ [JStr h]) c2)
                 = Some (drop (length (stored @ [JStr h]) - 20) (stored @ [JStr h]))"
    using saveNotifiedSites_ok[OF ok2, of "stored @ [JStr h]"] by (simp add: slice_last_def)
  have m: "\<not> truthy (obj_get cur ''mainEnabled'')" using assms(2) g by simp
  show "fst (handleRestrictionDetected ver h c) = [(''success'', JBool True), (''notified'', JBool True)]"
    using m s assms(4) by (simp add: handleRestrictionDetected_def g n Let_def)
  show "notifiedSites (snd (handleRestrictionDetected ver h c))
           = Some (drop (length (stored @ [JStr h]) - 20) (stored @ [JStr h]))"
    using m s assms(4) saved
    by (simp add: handleRestrictionDetected_def g n Let_def showRestrictionNotification_notifiedSites)
qed

text \<open>
  C9. \<^verbatim>\<open>saveNotifiedSites\<close> stores the last 20 elements of its input (the input without
  its first \<open>length - 20\<close> elements), so at most 20; \<^verbatim>\<open>handleRestrictionDetected\<close> keeps
  a stored list of at most 20 entries within that bound, whatever the browser rejects:
  it leaves the list as it is or stores the last 20 of the list it read with the one
  hostname appended at the end, and that is what it stores, answering
  \<^verbatim>\<open>notified: true\<close>, when the calls succeed, \<^verbatim>\<open>mainEnabled\<close> is not true and the
  hostname is new. When the settings it reads have \<^verbatim>\<open>mainEnabled\<close> true, or when the
  reads succeed and the hostname is in the stored list, it answers
  \<^verbatim>\<open>notified: false\<close> and the stored list is unchanged.
\<close>

theorem notifiedSites_bounded:
  "(storage_ok 1 c \<longrightarrow>
      notifiedSites (saveNotifiedSites sites c) = Some (drop (length sites - 20) sites)) \<and>
   (notifiedSites (saveNotifiedSites sites c) = notifiedSites c \<or>
    notifiedSites (saveNotifiedSites sites c) = Some (drop (length sites - 20) sites)) \<and>
   (sites_bounded c \<longrightarrow> sites_bounded (saveNotifiedSites sites c)) \<and>
   (sites_bounded c \<longrightarrow> sites_bounded (snd (handleRestrictionDetected ver h c))) \<and>
   (\<exists>read. (read = [] \<or> notifiedSites c = Some read) \<and>
      (notifiedSites (snd (handleRestrictionDetected ver h c)) = notifiedSites c \<or>
       notifiedSites (snd (handleRestrictionDetected ver h c))
         = Some (drop (length (read @ [JStr h]) - 20) (read @ [JStr h])))) \<and>
   (\<forall>stored. storage_ok 3 c \<and>
      \<not> truthy (obj_get (fst (Storage_getSettings ver c)) ''mainEnabled'') \<and>
      notifiedSites c = Some stored \<and> JStr h \<notin> set stored \<longrightarrow>
      fst (handleRestrictionDetected ver h c) = [(''success'', JBool True), (''notified'', JBool True)] \<and>
      notifiedSites (snd (handleRestrictionDetected ver h c))
        = Some (drop (length (stored @ [JStr h]) - 20) (stored @ [JStr h]))) \<and>
   (truthy (obj_get (fst (Storage_getSettings ver c)) ''mainEnabled'') \<longrightarrow>
      fst (handleRestrictionDetected ver h c) = [(''success'', JBool True), (''notified'', JBool False)] \<and>
      notifiedSites (snd (handleRestrictionDetected ver h c)) = notifiedSites c) \<and>
   (\<forall>stored. storage_ok 2 c \<and> notifiedSites c = Some stored \<and> JStr h \<in> set stored \<longrightarrow>
      fst (handleRestrictionDetected ver h c) = [(''success'', JBool True), (''notified'', JBool False)] \<and>
      notifiedSites (snd (handleRestrictionDetected ver h c)) = notifiedSites c)"
proof -
  have save_ok: "notifiedSites (saveNotifiedSites sites c) = Some (drop (length sites - 20) sites)"
    if "storage_ok 1 c"
    using saveNotifiedSites_ok[of 0 c sites] that by (simp add: slice_last_def)
  have save_any: "notifiedSites (saveNotifiedSites sites c) = notifiedSites c \<or>
      notifiedSites (saveNotifiedSites sites c) = Some (drop (length sites - 20) sites)"
    using saveNotifiedSites_stored[of sites c] by (simp add: slice_last_def)
  have save_bounded: "sites_bounded (saveNotifiedSites sites c)" if "sites_bounded c"
    using save_any that by (auto simp: sites_bounded_def)
  have stored_any: "\<exists>read. (read = [] \<or> notifiedSites c = Some read) \<and>
      (notifiedSites (snd (handleRestrictionDetected ver h c)) = notifiedSites c \<or>
       notifiedSites (snd (handleRestrictionDetected ver h c))
         = Some (drop (length (read @ [JStr h]) - 20) (read @ [JStr h])))"
    using handle_stored[of c ver h] by (simp add: slice_last_def)
  show ?thesis
    using save_ok save_any save_bounded stored_any handle_bounded[of c ver h]
      handle_new[of c ver _ h] handle_enabled[of ver c h] handle_known[of c _ h ver]
    by (intro conjI impI allI; (elim conjE)?; simp)
qed

lemma twenty_sites_length: "length twenty_sites = 20"
  by (simp add: twenty_sites_def)

lemma site3_notified: "JStr ''site3.example'' \<in> set twenty_sites"
  by code_simp

lemma new_site_unknown: "JStr ''new.example'' \<notin> set twenty_sites"
  by code_simp

lemma store_off_facts:
  "notifiedSites store_off = Some twenty_sites" "storage_faults store_off = []"
  by (simp_all add: store_off_def)

lemma store_off_disabled:
  "\<not> truthy (obj_get (fst (Storage_getSettings VERSION_background store_off)) ''mainEnabled'')"
  by (simp add: Storage_getSettings_def storage_call_def store_off_def validateSettings_def
      DEFAULT_SETTINGS_def obj_get_def)

lemma drop_oldest:
  "drop (length (twenty_sites @ [x]) - 20) (twenty_sites @ [x]) = tl twenty_sites @ [x]"
  using twenty_sites_length by (simp add: drop_Suc)

text \<open>
  With twenty sites stored and the extension switched off, a new hostname is put at
  the end and the oldest site is dropped; a known hostname changes nothing.
\<close>

theorem notifiedSites_bounded_witness:
  "storage_ok 1 store_off \<and>
   notifiedSites (saveNotifiedSites (twenty_sites @ [JStr ''new.example'']) store_off)
     = Some (tl twenty_sites @ [JStr ''new.example'']) \<and>
   sites_bounded store_off \<and>
   sites_bounded (snd (handleRestrictionDetected VERSION_background ''new.example'' store_off)) \<and>
   storage_ok 3 store_off \<and>
   \<not> truthy (obj_get (fst (Storage_getSettings VERSION_background store_off)) ''mainEnabled'') \<and>
   JStr ''new.example'' \<notin> set twenty_sites \<and>
   fst (handleRestrictionDetected VERSION_background ''new.example'' store_off)
     = [(''success'', JBool True), (''notified'', JBool True)] \<and>
   notifiedSites (snd (handleRestrictionDetected VERSION_background ''new.example'' store_off))
     = Some (tl twenty_sites @ [JStr ''new.example'']) \<and>
   truthy (obj_get (fst (Storage_getSettings VERSION_background example_store)) ''mainEnabled'') \<and>
   fst (handleRestrictionDetected VERSION_background ''new.example'' example_store)
     = [(''success'', JBool True), (''notified'', JBool False)] \<and>
   storage_ok 2 store_off \<and> JStr ''site3.example'' \<in> set twenty_sites \<and>
   fst (handleRestrictionDetected VERSION_background ''site3.example'' store_off)
     = [(''success'', JBool True), (''notified'', JBool False)] \<and>
   notifiedSites (snd (handleRestrictionDetected VERSION_background ''site3.example'' store_off))
     = Some twenty_sites"
proof -
  have ok: "storage_ok 1 store_off" "storage_ok 2 store_off" "storage_ok 3 store_off"
    by (simp_all add: storage_ok_def store_off_facts)
  have b: "sites_bounded store_off"
    by (simp add: sites_bounded_def store_off_facts twenty_sites_length)
  have e: "truthy (obj_get (fst (Storage_getSettings VERSION_background example_store)) ''mainEnabled'')"
    by (simp add: Storage_getSettings_def storage_call_def example_store_def validateSettings_eq
        settings_of_stored_def settings_object_def flag_from_def obj_get_def)
  show ?thesis
    using notifiedSites_bounded[of store_off "twenty_sites @ [JStr ''new.example'']"
        VERSION_background "''new.example''"]
      notifiedSites_bounded[of example_store "[]" VERSION_background "''new.example''"]
      notifiedSites_bounded[of store_off "[]" VERSION_background "''site3.example''"]
      ok b e site3_notified new_site_unknown store_off_disabled store_off_facts(1)
      drop_oldest[of "JStr ''new.example''"]
    by simp
qed

section \<open>The popup state: proofs\<close>

lemma spread_settings_object:
  "spread_into (settings_object m c p i ver) [] = settings_object m c p i ver"
  by (simp add: spread_into_def settings_object_def)

lemma obj_get_settings:
  "obj_get (settings_object m c p i ver) ''mainEnabled'' = m"
  "obj_get (settings_object m c p i ver) ''copyEnabled'' = c"
  "obj_get (settings_object m c p i ver) ''pasteEnabled'' = p"
  "obj_get (settings_object m c p i ver) ''inputEnabled'' = i"
  by (simp_all add: obj_get_def settings_object_def)

lemma update_settings:
  "AList.update ''mainEnabled'' v (settings_object m c p i ver) = settings_object v c p i ver"
  "AList.update ''copyEnabled'' v (settings_object m c p i ver) = settings_object m v p i ver"
  "AList.update ''pasteEnabled'' v (settings_object m c p i ver) = settings_object m c v i ver"
  "AList.update ''inputEnabled'' v (settings_object m c p i ver) = settings_object m c p v ver"
  by (simp_all add: settings_object_def)

lemma toggle_main:
  "State_toggle ''main'' \<lparr>settings = settings_record m c p i ver, isUpdating = False\<rparr>
   = (settings_record (\<not> m) c p i ver, \<lparr>settings = settings_record (\<not> m) c p i ver, isUpdating = False\<rparr>)"
  by (simp add: State_toggle_def settings_record_def spread_settings_object obj_get_settings
      update_settings js_not_def Let_def)

lemma toggle_copy:
  "State_toggle ''copy'' \<lparr>settings = settings_record m c p i ver, isUpdating = False\<rparr>
   = (settings_record m (if m then \<not> c else c) p i ver,
      \<lparr>settings = settings_record m (if m then \<not> c else c) p i ver, isUpdating = False\<rparr>)"
  by (simp add: State_toggle_def settings_record_def spread_settings_object obj_get_settings
      update_settings js_not_def Let_def)

lemma toggle_paste:
  "State_toggle ''paste'' \<lparr>settings = settings_record m c p i ver, isUpdating = False\<rparr>
   = (settings_record m c (if m then \<not> p else p) i ver,
      \<lparr>settings = settings_record m c (if m then \<not> p else p) i ver, isUpdating = False\<rparr>)"
  by (simp add: State_toggle_def settings_record_def spread_settings_object obj_get_settings
      update_settings js_not_def Let_def)

lemma toggle_input:
  "State_toggle ''input'' \<lparr>settings = settings_record m c p i ver, isUpdating = False\<rparr>
   = (settings_record m c p (if m then \<not> i else i) ver,
      \<lparr>settings = settings_record m c p (if m then \<not> i else i) ver, isUpdating = False\<rparr>)"
  by (simp add: State_toggle_def settings_record_def spread_settings_object obj_get_settings
      update_settings js_not_def Let_def)

lemma toggle_updating:
  "State_toggle key \<lparr>settings = s, isUpdating = True\<rparr> = (s, \<lparr>settings = s, isUpdating = True\<rparr>)"
  by (simp add: State_toggle_def)

lemma toggle_unknown:
  "key \<notin> {''main'', ''copy'', ''paste'', ''input''} \<Longrightarrow>
   State_toggle key \<lparr>settings = settings_record m c p i ver, isUpdating = u\<rparr>
   = (settings_record m c p i ver, \<lparr>settings = settings_record m c p i ver, isUpdating = u\<rparr>)"
  by (simp add: State_toggle_def settings_record_def spread_settings_object Let_def)

text \<open>
  C10. In the popup, with \<^verbatim>\<open>isUpdating\<close> unset, \<^verbatim>\<open>State.toggle('main')\<close> negates
  \<^verbatim>\<open>mainEnabled\<close>; \<^verbatim>\<open>toggle('copy')\<close>, \<^verbatim>\<open>toggle('paste')\<close> and \<^verbatim>\<open>toggle('input')\<close>
  negate their flag when \<^verbatim>\<open>mainEnabled\<close> is true and change nothing when it is false;
  with \<^verbatim>\<open>isUpdating\<close> set, or for any other key, the settings are returned unchanged.
  Every other field, \<^verbatim>\<open>version\<close> included, keeps its value, and the state holds the
  settings returned.
\<close>

theorem toggle_frame:
  "State_toggle ''main'' \<lparr>settings = settings_record m c p i ver, isUpdating = False\<rparr>
     = (settings_record (\<not> m) c p i ver,
        \<lparr>settings = settings_record (\<not> m) c p i ver, isUpdating = False\<rparr>) \<and>
   State_toggle ''copy'' \<lparr>settings = settings_record m c p i ver, isUpdating = False\<rparr>
     = (settings_record m (if m then \<not> c else c) p i ver,
        \<lparr>settings = settings_record m (if m then \<not> c else c) p i ver, isUpdating = False\<rparr>) \<and>
   State_toggle ''paste'' \<lparr>settings = settings_record m c p i ver, isUpdating = False\<rparr>
     = (settings_record m c (if m then \<not> p else p) i ver,
        \<lparr>settings = settings_record m c (if m then \<not> p else p) i ver, isUpdating = False\<rparr>) \<and>
   State_toggle ''input'' \<lparr>settings = settings_record m c p i ver, isUpdating = False\<rparr>
     = (settings_record m c p (if m then \<not> i else i) ver,
        \<lparr>settings = settings_record m c p (if m then \<not> i else i) ver, isUpdating = False\<rparr>) \<and>
   State_toggle key \<lparr>settings = s, isUpdating = True\<rparr>
     = (s, \<lparr>settings = s, isUpdating = True\<rparr>) \<and>
   (key \<notin> {''main'', ''copy'', ''paste'', ''input''} \<longrightarrow>
      State_toggle key \<lparr>settings = settings_record m c p i ver, isUpdating = u\<rparr>
        = (settings_record m c p i ver,
           \<lparr>settings = settings_record m c p i ver, isUpdating = u\<rparr>))"
  using toggle_main[of m c p i ver] toggle_copy[of m c p i ver] toggle_paste[of m c p i ver]
    toggle_input[of m c p i ver] toggle_updating[of key s] toggle_unknown[of key m c p i ver u]
  by simp

theorem toggle_frame_witness:
  "''theme'' \<notin> {''main'', ''copy'', ''paste'', ''input''} \<and>
   State_toggle ''theme'' \<lparr>settings = settings_record True False True True ''8.0.0'', isUpdating = False\<rparr>
     = (settings_record True False True True ''8.0.0'',
        \<lparr>settings = settings_record True False True True ''8.0.0'', isUpdating = False\<rparr>) \<and>
   State_toggle ''copy'' \<lparr>settings = settings_record True False True True ''8.0.0'', isUpdating = False\<rparr>
     = (settings_record True True True True ''8.0.0'',
        \<lparr>settings = settings_record True True True True ''8.0.0'', isUpdating = False\<rparr>)"
  using toggle_frame[of True False True True "''8.0.0''" "''theme''" "[]" False]
  by simp

text \<open>
  \<^verbatim>\<open>State.settings\<close> starts as a copy of the defaults and \<^verbatim>\<open>State.update\<close> stores a
  validated record; \<^verbatim>\<open>State.toggle\<close> keeps it a settings record.
\<close>

lemma toggle_keeps_record:
  assumes "is_settings_record ver (settings st)"
  shows "is_settings_record ver (fst (State_toggle key st))"
    and "is_settings_record ver (settings (snd (State_toggle key st)))"
proof -
  obtain m c p i where s: "settings st = settings_record m c p i ver"
    using assms by (auto simp: is_settings_record_def settings_record_def)
  have st: "st = \<lparr>settings = settings_record m c p i ver, isUpdating = isUpdating st\<rparr>"
    using s by (cases st) simp
  have r: "is_settings_record ver (settings_record a b d e ver)" for a b d e
    by (auto simp: is_settings_record_def settings_record_def)
  have "is_settings_record ver (fst (State_toggle key st)) \<and>
        is_settings_record ver (settings (snd (State_toggle key st)))"
  proof (cases "isUpdating st")
    case True
    then show ?thesis using assms by (simp add: State_toggle_def)
  next
    case False
    then have st': "st = \<lparr>settings = settings_record m c p i ver, isUpdating = False\<rparr>"
      using st by simp
    consider "key = ''main''" | "key = ''copy''" | "key = ''paste''" | "key = ''input''"
      | "key \<notin> {''main'', ''copy'', ''paste'', ''input''}" by auto
    then show ?thesis
    proof cases
      case 1 then show ?thesis by (subst (1 2) st') (simp add: toggle_main r)
    next
      case 2 then show ?thesis by (subst (1 2) st') (simp add: toggle_copy r)
    next
      case 3 then show ?thesis by (subst (1 2) st') (simp add: toggle_paste r)
    next
      case 4 then show ?thesis by (subst (1 2) st') (simp add: toggle_input r)
    next
      case 5 then show ?thesis by (subst (1 2) st') (simp add: toggle_unknown r)
    qed
  qed
  then show "is_settings_record ver (fst (State_toggle key st))"
    and "is_settings_record ver (settings (snd (State_toggle key st)))" by simp_all
qed

section \<open>Per-site settings: proofs\<close>

lemma map_of_spread_into:
  "distinct (map fst src) \<Longrightarrow>
   map_of (spread_into src tgt) = map_of tgt ++ map_of src"
proof (induction src arbitrary: tgt)
  case Nil
  then show ?case by (simp add: spread_into_def)
next
  case (Cons a src)
  obtain k v where a: "a = (k, v)" by (cases a)
  have k: "k \<notin> dom (map_of src)" using Cons.prems a by (simp add: dom_map_of_conv_image_fst)
  have "map_of (spread_into (a # src) tgt) = map_of (spread_into src (AList.update k v tgt))"
    by (simp add: spread_into_def a)
  also have "\<dots> = map_of (AList.update k v tgt) ++ map_of src"
    using Cons.IH[of "AList.update k v tgt"] Cons.prems by simp
  also have "\<dots> = (map_of tgt)(k \<mapsto> v) ++ map_of src"
    by (simp only: update_conv')
  also have "\<dots> = map_of tgt ++ map_of (a # src)"
    using k by (simp add: a map_add_upd_left)
  finally show ?case .
qed

lemma storage_call_siteSettings: "siteSettings (snd (storage_call c)) = siteSettings c"
  by (cases "storage_faults c") (simp_all add: storage_call_def)

lemma getSettings_ok:
  "storage_ok (Suc n) c \<Longrightarrow>
   Storage_getSettings ver c = (validateSettings ver (unlockSettings c), snd (storage_call c))"
  using storage_call_ok[of n c] storage_call_unlockSettings[of c]
  by (cases "storage_call c") (auto simp: Storage_getSettings_def)

lemma getSiteSettings_ok:
  "storage_ok (Suc n) c \<Longrightarrow>
   fst (getSiteSettings hostname c) =
     (let found = obj_get (case siteSettings c of None \<Rightarrow> [] | Some stored \<Rightarrow> stored) hostname
      in if truthy found then found else JNull)"
  using storage_call_ok[of n c] storage_call_siteSettings[of c]
  by (cases "storage_call c") (auto simp: getSiteSettings_def Let_def)

lemma Object_prototype_get_other:
  "k \<notin> set Object_prototype_keys \<Longrightarrow> Object_prototype_get k = JUndefined"
  by (simp add: Object_prototype_get_def Object_prototype_keys_def)

lemma spread_validated:
  "spread_into (validateSettings ver v) [] = validateSettings ver v"
  by (simp add: validateSettings_eq settings_of_stored_def spread_settings_object)

text \<open>
  For a hostname that is no member of \<^verbatim>\<open>Object.prototype\<close>, the effective settings
  are as intended when the two reads succeed: without a stored override the global
  settings with \<^verbatim>\<open>hasSiteSpecificSettings\<close> false, with a stored override (an object)
  the global settings overridden field by field, with \<^verbatim>\<open>hasSiteSpecificSettings\<close> true.
\<close>

lemma getEffectiveSettings_own_names:
  assumes "storage_ok 2 c" "hostname \<notin> set Object_prototype_keys"
  shows "(case siteSettings c of None \<Rightarrow> None | Some stored \<Rightarrow> map_of stored hostname) = None \<Longrightarrow>
           fst (getEffectiveSettings hostname c)
             = validateSettings VERSION_popup (unlockSettings c)
               @ [(''hasSiteSpecificSettings'', JBool False)]"
    and "(case siteSettings c of None \<Rightarrow> None | Some stored \<Rightarrow> map_of stored hostname) = Some (JObj override)
         \<Longrightarrow> distinct (map fst override) \<Longrightarrow>
           map_of (fst (getEffectiveSettings hostname c))
             = (map_of (validateSettings VERSION_popup (unlockSettings c)) ++ map_of override)
               (''hasSiteSpecificSettings'' \<mapsto> JBool True)"
proof -
  have ok2: "storage_ok (Suc 1) c" using assms(1) by (simp add: numeral_2_eq_2)
  define c1 where "c1 = snd (storage_call c)"
  have g: "Storage_getSettings VERSION_popup c = (validateSettings VERSION_popup (unlockSettings c), c1)"
    using getSettings_ok[OF ok2] by (simp add: c1_def)
  have ok1: "storage_ok (Suc 0) c1" using storage_call_ok_next[OF ok2] by (simp add: c1_def)
  have s1: "siteSettings c1 = siteSettings c" by (simp add: c1_def storage_call_siteSettings)
  obtain site c2 where ss: "getSiteSettings hostname c1 = (site, c2)" by (cases "getSiteSettings hostname c1")
  have site: "site = (let found = obj_get (case siteSettings c of None \<Rightarrow> [] | Some stored \<Rightarrow> stored) hostname
      in if truthy found then found else JNull)"
    using getSiteSettings_ok[OF ok1, of hostname] ss s1 by simp
  {
    assume "(case siteSettings c of None \<Rightarrow> None | Some stored \<Rightarrow> map_of stored hostname) = None"
    then have "site = JNull"
      using site Object_prototype_get_other[OF assms(2)]
      by (auto simp: obj_get_def split: option.splits)
    then show "fst (getEffectiveSettings hostname c)
             = validateSettings VERSION_popup (unlockSettings c)
               @ [(''hasSiteSpecificSettings'', JBool False)]"
      by (simp add: getEffectiveSettings_def g ss spread_validated)
         (simp add: validateSettings_eq settings_of_stored_def settings_object_def)
  }
  {
    assume "(case siteSettings c of None \<Rightarrow> None | Some stored \<Rightarrow> map_of stored hostname) = Some (JObj override)"
      and d: "distinct (map fst override)"
    then have "site = JObj override"
      using site by (auto simp: obj_get_def split: option.splits)
    then show "map_of (fst (getEffectiveSettings hostname c))
             = (map_of (validateSettings VERSION_popup (unlockSettings c)) ++ map_of override)
               (''hasSiteSpecificSettings'' \<mapsto> JBool True)"
      by (simp add: getEffectiveSettings_def g ss spread_validated update_conv' map_of_spread_into[OF d])
  }
qed

text \<open>
  C5. \<^verbatim>\<open>getEffectiveSettings\<close> is to return the global settings with
  \<^verbatim>\<open>hasSiteSpecificSettings\<close> false when no override is stored for the hostname. For
  the hostname \<^verbatim>\<open>constructor\<close> and a storage without any per-site settings, both reads
  succeeding, \<^verbatim>\<open>allSiteSettings[hostname]\<close> is the inherited \<^verbatim>\<open>Object\<close> function, which
  is truthy and spreads to nothing: the result is the global defaults with
  \<^verbatim>\<open>hasSiteSpecificSettings\<close> true.
\<close>

theorem getEffectiveSettings_inherited_name:
  "siteSettings store_without_site_settings = None \<and>
   storage_ok 2 store_without_site_settings \<and>
   fst (getEffectiveSettings ''constructor'' store_without_site_settings)
     = [(''mainEnabled'', JBool False), (''copyEnabled'', JBool True),
        (''pasteEnabled'', JBool True), (''inputEnabled'', JBool True),
        (''version'', JStr ''8.0.0''), (''hasSiteSpecificSettings'', JBool True)]"
  by (simp add: store_without_site_settings_def storage_ok_def getEffectiveSettings_def
      Storage_getSettings_def storage_call_def getSiteSettings_def obj_get_def
      Object_prototype_get_def Object_prototype_keys_def validateSettings_def
      DEFAULT_SETTINGS_def spread_into_def VERSION_popup_def Let_def)

section \<open>The DOM observer: proofs\<close>

lemma isValidMutation_skipped: "isValidMutation m = (\<not> skipped m)"
  by (cases "tagName (target m)")
     (auto simp: isValidMutation_def skipped_def is_script_style_link_def marked_processed_def Let_def
       split: option.splits)

lemma clearTimeout_pendingMutations: "pendingMutations (clearTimeout t st) = pendingMutations st"
  by (cases t) (simp_all add: clearTimeout_def)

lemma handleMutations_queue:
  "pendingMutations (handleMutations ms st) = pendingMutations st @ filter isValidMutation ms"
  by (auto simp: handleMutations_def Let_def setTimeout_def clearTimeout_pendingMutations split: prod.splits)

text \<open>
  C7, as amended. \<^verbatim>\<open>isValidMutation\<close> returns false exactly for the mutations of type
  \<^verbatim>\<open>characterData\<close>, those whose target is no element node, those whose target is a
  script, style or link element, and the attribute mutations whose target has a
  non-empty \<^verbatim>\<open>data-unlock-processed\<close> attribute; \<^verbatim>\<open>handleMutations\<close> appends to the
  queue exactly the mutations for which it returns true, in their order.
\<close>

theorem isValidMutation_exact:
  "isValidMutation m = (\<not> skipped m) \<and>
   pendingMutations (handleMutations ms st) = pendingMutations st @ filter isValidMutation ms"
  using isValidMutation_skipped[of m] handleMutations_queue[of ms st] by simp

text \<open>
  C7, as claimed, fails: an attribute mutation whose target carries the attribute
  \<^verbatim>\<open>data-unlock-processed\<close> with the empty string as its value is among those the claim
  lists, and \<^verbatim>\<open>isValidMutation\<close> returns true for it.
\<close>

theorem isValidMutation_empty_mark:
  "claimed_skip empty_mark_mutation \<and> isValidMutation empty_mark_mutation"
  by (simp add: claimed_skip_def carries_mark_def isValidMutation_def empty_mark_mutation_def
      getAttribute_def ELEMENT_NODE_def) code_simp

lemma skipped_examples:
  "skipped marked_mutation" "\<not> skipped added_mutation" "\<not> skipped empty_mark_mutation"
  by code_simp+

theorem isValidMutation_exact_witness:
  "skipped marked_mutation \<and> \<not> isValidMutation marked_mutation \<and>
   \<not> skipped empty_mark_mutation \<and> isValidMutation empty_mark_mutation \<and>
   pendingMutations
     (handleMutations [marked_mutation, added_mutation, empty_mark_mutation] idle_observer)
     = pendingMutations idle_observer @ [added_mutation, empty_mark_mutation]"
  using isValidMutation_exact[of marked_mutation
      "[marked_mutation, added_mutation, empty_mark_mutation]" idle_observer]
    isValidMutation_exact[of empty_mark_mutation "[]" idle_observer]
    isValidMutation_exact[of added_mutation "[]" idle_observer]
    skipped_examples
  by simp


lemma set_set_add: "set (set_add x xs) = insert x (set xs)"
  by (auto simp: set_add_def)

lemma distinct_set_add: "distinct xs \<Longrightarrow> distinct (set_add x xs)"
  by (simp add: set_add_def)

lemma set_fold_set_add: "set (fold set_add ys acc) = set ys \<union> set acc"
  by (induction ys arbitrary: acc) (auto simp: set_set_add)

lemma distinct_fold_set_add: "distinct acc \<Longrightarrow> distinct (fold set_add ys acc)"
  by (induction ys arbitrary: acc) (auto simp: distinct_set_add)

lemma set_querySelectorAll_any:
  "set (querySelectorAll_any n) = {d \<in> descendants n. nodeType d = ELEMENT_NODE}"
proof (induction n rule: querySelectorAll_any.induct)
  case (1 i t tag as cs)
  have "set (querySelectorAll_any (Node i t tag as cs))
        = (\<Union>c \<in> set cs. (if nodeType c = ELEMENT_NODE then {c} else {}) \<union> set (querySelectorAll_any c))"
    by (auto split: if_splits)
  also have "\<dots> = (\<Union>c \<in> set cs. (if nodeType c = ELEMENT_NODE then {c} else {})
                       \<union> {d \<in> descendants c. nodeType d = ELEMENT_NODE})"
    using 1 by simp
  also have "\<dots> = {d \<in> descendants (Node i t tag as cs). nodeType d = ELEMENT_NODE}"
    by (auto split: if_splits)
  finally show ?case .
qed

lemma set_added_nodes:
  "set (fold (\<lambda>n acc. if nodeType n = ELEMENT_NODE
                       then fold set_add (querySelectorAll_any n) (set_add n acc) else acc) ns acc)
   = (\<Union>n \<in> {n \<in> set ns. nodeType n = ELEMENT_NODE}.
        insert n {d \<in> descendants n. nodeType d = ELEMENT_NODE}) \<union> set acc"
  by (induction ns arbitrary: acc)
     (auto simp: set_fold_set_add set_set_add set_querySelectorAll_any)

lemma distinct_added_nodes:
  "distinct acc \<Longrightarrow>
   distinct (fold (\<lambda>n acc. if nodeType n = ELEMENT_NODE
                       then fold set_add (querySelectorAll_any n) (set_add n acc) else acc) ns acc)"
  by (induction ns arbitrary: acc) (auto simp: distinct_fold_set_add distinct_set_add)

lemma set_collect: "set (collect m acc) = batch_elements m \<union> set acc"
  by (cases "mtype m") (simp_all add: collect_def batch_elements_def set_added_nodes set_set_add)

lemma distinct_collect: "distinct acc \<Longrightarrow> distinct (collect m acc)"
  by (simp add: collect_def distinct_added_nodes distinct_set_add)

lemma set_fold_collect: "set (fold collect ms acc) = (\<Union>m \<in> set ms. batch_elements m) \<union> set acc"
  by (induction ms arbitrary: acc) (auto simp: set_collect)

lemma distinct_fold_collect: "distinct acc \<Longrightarrow> distinct (fold collect ms acc)"
  by (induction ms arbitrary: acc) (auto simp: distinct_collect)

lemma batchProcess_empty: "pendingMutations st = [] \<Longrightarrow> batchProcess st = st"
  by (simp add: batchProcess_def)

lemma batchProcess_queue: "pendingMutations (batchProcess st) = []"
  by (simp add: batchProcess_def processElements_def Let_def)

lemma batchProcess_calls:
  "pendingMutations st \<noteq> [] \<Longrightarrow>
   processElements_calls (batchProcess st)
     = processElements_calls st @ [fold collect (pendingMutations st) []]"
  by (simp add: batchProcess_def processElements_def Let_def)

lemma batchProcess_stats:
  "processedMutations (batchProcess st) = processedMutations st + length (pendingMutations st)"
  by (simp add: batchProcess_def processElements_def Let_def)

text \<open>
  C8. Every call of \<^verbatim>\<open>batchProcess\<close> leaves the queue empty. With an empty queue it
  does nothing; otherwise it calls \<^verbatim>\<open>processElements\<close> once, with an array that holds
  no element twice and holds exactly the element nodes added by the queued
  \<^verbatim>\<open>childList\<close> mutations, the elements below them, and the targets of the queued
  attribute mutations, and it counts the queued mutations once. A second call right
  after processes nothing.
\<close>

theorem batchProcess_consumes:
  "pendingMutations (batchProcess st) = [] \<and>
   (pendingMutations st = [] \<longrightarrow> batchProcess st = st) \<and>
   (pendingMutations st \<noteq> [] \<longrightarrow>
      (\<exists>elements.
         processElements_calls (batchProcess st) = processElements_calls st @ [elements] \<and>
         distinct elements \<and>
         set elements = (\<Union>m \<in> set (pendingMutations st). batch_elements m))) \<and>
   processedMutations (batchProcess st) = processedMutations st + length (pendingMutations st) \<and>
   batchProcess (batchProcess st) = batchProcess st"
proof -
  have "\<exists>elements.
         processElements_calls (batchProcess st) = processElements_calls st @ [elements] \<and>
         distinct elements \<and>
         set elements = (\<Union>m \<in> set (pendingMutations st). batch_elements m)"
    if "pendingMutations st \<noteq> []"
    using batchProcess_calls[OF that] distinct_fold_collect[of "[]" "pendingMutations st"]
      set_fold_collect[of "pendingMutations st" "[]"]
    by simp
  then show ?thesis
    using batchProcess_queue[of st] batchProcess_empty[of st] batchProcess_stats[of st]
      batchProcess_empty[of "batchProcess st"]
    by blast
qed

lemma queued_observer_queue:
  "pendingMutations queued_observer = [added_mutation, empty_mark_mutation]"
  by code_simp

lemma queued_observer_batch:
  "processElements_calls (batchProcess queued_observer)
     = [[added_section, Node 3 1 (Some ''P'') [] [Node 4 3 None [] []],
         Node 7 1 (Some ''DIV'') [(''data-unlock-processed'', [])] []]]"
  by code_simp

theorem batchProcess_consumes_witness:
  "pendingMutations queued_observer \<noteq> [] \<and>
   pendingMutations (batchProcess queued_observer) = [] \<and>
   (\<exists>elements.
      processElements_calls (batchProcess queued_observer)
        = processElements_calls queued_observer @ [elements] \<and>
      distinct elements \<and>
      set elements = (\<Union>m \<in> set (pendingMutations queued_observer). batch_elements m)) \<and>
   processedMutations (batchProcess queued_observer) = processedMutations queued_observer + 2"
  using batchProcess_consumes[of queued_observer] queued_observer_queue by simp

text \<open>
  Over any sequence of \<^verbatim>\<open>handleMutations\<close> and \<^verbatim>\<open>batchProcess\<close> calls, the mutations
  counted as processed and those still queued add up to the valid mutations observed:
  each one is counted by one batch.
\<close>

lemma handleMutations_stats:
  "processedMutations (handleMutations ms st) = processedMutations st"
  by (cases "batchTimer st")
     (simp_all add: handleMutations_def Let_def setTimeout_def clearTimeout_def split: prod.splits)

lemma observer_run_counts:
  "processedMutations (observer_run steps st) + length (pendingMutations (observer_run steps st))
   = processedMutations st + length (pendingMutations st) + length (observed steps)"
proof (induction steps st rule: observer_run.induct)
  case (1 st)
  then show ?case by simp
next
  case (2 ms steps st)
  then show ?case by (simp add: handleMutations_queue handleMutations_stats)
next
  case (3 steps st)
  then show ?case by (simp add: batchProcess_queue batchProcess_stats)
qed

section \<open>Debouncing: proofs\<close>














end
